theory Spec2Isabelle
  imports Complex_Main
begin

section \<open>Errors\<close>

text \<open>
  Every exception the modelled code can raise is a value.  \<open>HTTPException\<close> carries
  the status code the endpoint answers with.
\<close>

datatype error =
    ValueError
  | OverflowError
  | TypeError
  | ValidationError
  | HTTPException nat

section \<open>Calendar dates and aware datetimes\<close>

text \<open>
  A \<open>datetime\<close> of the program is timezone-aware (the Task validator attaches UTC to
  naive values, and the data model of the specification asks for aware instants), with
  a fixed offset from UTC.  The record keeps the wall-clock fields Python keeps and the
  offset in microseconds.
\<close>

record datetime =
  year :: int
  month :: int
  day :: int
  hour :: int
  minute :: int
  second :: int
  microsecond :: int
  utcoffset :: int

type_synonym date = "int \<times> int \<times> int"

definition MINYEAR :: int where "MINYEAR = 1"
definition MAXYEAR :: int where "MAXYEAR = 9999"

definition is_leap :: "int \<Rightarrow> bool" where
  "is_leap y \<longleftrightarrow> y mod 4 = 0 \<and> (y mod 100 \<noteq> 0 \<or> y mod 400 = 0)"

definition days_in_month :: "int \<Rightarrow> int \<Rightarrow> int" where
  "days_in_month y m =
     (if m = 2 then (if is_leap y then 29 else 28)
      else if m = 4 \<or> m = 6 \<or> m = 9 \<or> m = 11 then 30 else 31)"

definition days_before_year :: "int \<Rightarrow> int" where
  "days_before_year y = (y - 1) * 365 + (y - 1) div 4 - (y - 1) div 100 + (y - 1) div 400"

definition days_before_month :: "int \<Rightarrow> int \<Rightarrow> int" where
  "days_before_month y m =
     (if m = 1 then 0 else if m = 2 then 31 else if m = 3 then 59 else if m = 4 then 90
      else if m = 5 then 120 else if m = 6 then 151 else if m = 7 then 181
      else if m = 8 then 212 else if m = 9 then 243 else if m = 10 then 273
      else if m = 11 then 304 else 334)
     + (if m > 2 \<and> is_leap y then 1 else 0)"

definition valid_date :: "date \<Rightarrow> bool" where
  "valid_date d = (case d of (y, m, dd) \<Rightarrow>
     MINYEAR \<le> y \<and> y \<le> MAXYEAR \<and> 1 \<le> m \<and> m \<le> 12 \<and> 1 \<le> dd \<and> dd \<le> days_in_month y m)"

text \<open>\<open>date.toordinal()\<close>: 1 is 0001-01-01.\<close>

definition toordinal :: "date \<Rightarrow> int" where
  "toordinal d = (case d of (y, m, dd) \<Rightarrow> days_before_year y + days_before_month y m + dd)"

definition MAXORDINAL :: int where "MAXORDINAL = 3652059"

text \<open>\<open>date.weekday()\<close>: 0 is Monday, 6 is Sunday.\<close>

definition weekday :: "date \<Rightarrow> int" where
  "weekday d = (toordinal d + 6) mod 7"

definition date_succ :: "date \<Rightarrow> date" where
  "date_succ d = (case d of (y, m, dd) \<Rightarrow>
     if dd < days_in_month y m then (y, m, dd + 1)
     else if m < 12 then (y, m + 1, 1)
     else (y + 1, 1, 1))"

definition date_pred :: "date \<Rightarrow> date" where
  "date_pred d = (case d of (y, m, dd) \<Rightarrow>
     if 1 < dd then (y, m, dd - 1)
     else if 1 < m then (y, m - 1, days_in_month y (m - 1))
     else (y - 1, 12, 31))"

text \<open>
  \<open>date + timedelta(days=n)\<close>.  Constructing the timedelta fails beyond
  999999999 days, the sum fails when it leaves 0001-01-01 .. 9999-12-31.
\<close>

definition date_add_days :: "date \<Rightarrow> int \<Rightarrow> error + date" where
  "date_add_days d n =
     (if \<bar>n\<bar> > 999999999 then Inl OverflowError
      else if 0 < toordinal d + n \<and> toordinal d + n \<le> MAXORDINAL
      then Inr (if 0 \<le> n then (date_succ ^^ nat n) d else (date_pred ^^ nat (- n)) d)
      else Inl OverflowError)"

definition date_of :: "datetime \<Rightarrow> date" where
  "date_of dt = (year dt, month dt, day dt)"

definition with_date :: "datetime \<Rightarrow> date \<Rightarrow> datetime" where
  "with_date dt d = (case d of (y, m, dd) \<Rightarrow> dt\<lparr>year := y, month := m, day := dd\<rparr>)"

text \<open>\<open>dt + timedelta(days=n)\<close>: the time of day and the offset stay.\<close>

definition add_days :: "datetime \<Rightarrow> int \<Rightarrow> error + datetime" where
  "add_days dt n =
     (case date_add_days (date_of dt) n of
        Inl e \<Rightarrow> Inl e
      | Inr d \<Rightarrow> Inr (with_date dt d))"

text \<open>\<open>dt.replace(year=y, month=m, day=d)\<close> raises ValueError on an invalid date.\<close>

definition replace_date :: "datetime \<Rightarrow> date \<Rightarrow> error + datetime" where
  "replace_date dt d = (if valid_date d then Inr (with_date dt d) else Inl ValueError)"

definition replace_day :: "datetime \<Rightarrow> int \<Rightarrow> error + datetime" where
  "replace_day dt k = replace_date dt (year dt, month dt, k)"

text \<open>
  \<open>relativedelta(years=ys, months=ms)\<close> normalises months beyond 11 into years when
  it is constructed; adding it to a datetime moves year and month and clamps the day
  to the length of the month reached.
\<close>

definition relativedelta :: "int \<Rightarrow> int \<Rightarrow> int \<times> int" where
  "relativedelta ys ms =
     (if \<bar>ms\<bar> > 11
      then (let s = (if ms < 0 then - 1 else 1);
                dv = (ms * s) div 12;
                md = (ms * s) mod 12
            in (ys + dv * s, md * s))
      else (ys, ms))"

definition add_relativedelta :: "datetime \<Rightarrow> int \<times> int \<Rightarrow> error + datetime" where
  "add_relativedelta dt rd = (case rd of (ys, ms) \<Rightarrow>
     (let y0 = year dt + ys;
          m0 = month dt + ms;
          (y, m) = (if ms \<noteq> 0
                    then (if m0 > 12 then (y0 + 1, m0 - 12)
                          else if m0 < 1 then (y0 - 1, m0 + 12)
                          else (y0, m0))
                    else (y0, month dt));
          dd = min (days_in_month y m) (day dt)
      in replace_date dt (y, m, dd)))"

section \<open>Recurrence\<close>

record Frequency =
  ftype :: string
  interval :: int
  days_of_week :: "int list option"
  day_of_month :: "int option"

text \<open>The first element of the sorted targets that is later in the week.\<close>

definition next_target :: "int \<Rightarrow> int list \<Rightarrow> int option" where
  "next_target current_weekday target_days = find (\<lambda>d. d > current_weekday) target_days"

definition calculate_next_due_date :: "datetime \<Rightarrow> Frequency \<Rightarrow> error + datetime" where
  "calculate_next_due_date current_due frequency =
     (if ftype frequency = ''daily'' then add_days current_due (interval frequency)
      else if ftype frequency = ''weekly'' then
        (case days_of_week frequency of
           Some (d0 # ds) \<Rightarrow>
             (let current_weekday = weekday (date_of current_due);
                  target_days = sort (d0 # ds)
              in case next_target current_weekday target_days of
                   None \<Rightarrow> add_days current_due ((7 - current_weekday) + hd target_days)
                 | Some next_day \<Rightarrow> add_days current_due (next_day - current_weekday))
         | _ \<Rightarrow> add_days current_due (7 * interval frequency))
      else if ftype frequency = ''monthly'' then
        (case add_relativedelta current_due (relativedelta 0 (interval frequency)) of
           Inl e \<Rightarrow> Inl e
         | Inr next_date \<Rightarrow>
             (case day_of_month frequency of
                None \<Rightarrow> Inr next_date
              | Some k \<Rightarrow>
                  if k = 0 then Inr next_date
                  else (case replace_day next_date k of
                          Inr r \<Rightarrow> Inr r
                        | Inl _ \<Rightarrow>
                            (case add_relativedelta next_date (relativedelta 0 1) of
                               Inl e \<Rightarrow> Inl e
                             | Inr next_month \<Rightarrow>
                                 (case replace_day next_month 1 of
                                    Inl e \<Rightarrow> Inl e
                                  | Inr first \<Rightarrow>
                                      (case add_days first (- 1) of
                                         Inl e \<Rightarrow> Inl e
                                       | Inr l \<Rightarrow> replace_day next_date (day l)))))))
      else if ftype frequency = ''yearly'' then
        add_relativedelta current_due (relativedelta (interval frequency) 0)
      else Inl ValueError)"

text \<open>Month and day are well formed, whatever the year.\<close>

definition md_valid :: "date \<Rightarrow> bool" where
  "md_valid d = (case d of (y, m, dd) \<Rightarrow> 1 \<le> m \<and> m \<le> 12 \<and> 1 \<le> dd \<and> dd \<le> days_in_month y m)"

text \<open>Weeks start on Monday; ordinal 1 is a Monday.\<close>

definition week_index :: "date \<Rightarrow> int" where
  "week_index d = (toordinal d - 1) div 7"

text \<open>The position of a month on the month line: twelve per year.\<close>

definition months_total :: "datetime \<Rightarrow> int \<Rightarrow> int" where
  "months_total d n = year d * 12 + (month d - 1) + n"

text \<open>The field constraints of the \<open>Frequency\<close> model.\<close>

definition Frequency_valid :: "Frequency \<Rightarrow> bool" where
  "Frequency_valid f \<longleftrightarrow>
     ftype f \<in> {''daily'', ''weekly'', ''monthly'', ''yearly''}
     \<and> 1 \<le> interval f \<and> interval f \<le> 365
     \<and> (case day_of_month f of None \<Rightarrow> True | Some k \<Rightarrow> 1 \<le> k \<and> k \<le> 31)"

section \<open>Strings\<close>

text \<open>
  A Python \<open>str\<close> is modelled by a \<open>string\<close> whose characters are the code points
  below 256, one \<open>char\<close> per code point.
\<close>

definition ord :: "char \<Rightarrow> nat" where
  "ord c = of_char c"

text \<open>\<open>str.isspace\<close> on one character.\<close>

definition isspace :: "char \<Rightarrow> bool" where
  "isspace c \<longleftrightarrow> ord c \<in> {9, 10, 11, 12, 13, 28, 29, 30, 31, 32, 133, 160}"

text \<open>\<open>str.isalnum\<close> on one character: letters, digits and numeric characters.\<close>

definition isalnum :: "char \<Rightarrow> bool" where
  "isalnum c \<longleftrightarrow> (let n = ord c in
     (48 \<le> n \<and> n \<le> 57) \<or> (65 \<le> n \<and> n \<le> 90) \<or> (97 \<le> n \<and> n \<le> 122)
     \<or> n \<in> {170, 178, 179, 181, 185, 186, 188, 189, 190}
     \<or> (192 \<le> n \<and> n \<le> 214) \<or> (216 \<le> n \<and> n \<le> 246) \<or> (248 \<le> n \<and> n \<le> 255))"

definition strip :: "string \<Rightarrow> string" where
  "strip s = rev (dropWhile isspace (rev (dropWhile isspace s)))"

definition lower_char :: "char \<Rightarrow> char" where
  "lower_char c = (let n = ord c in
     if (65 \<le> n \<and> n \<le> 90) \<or> (192 \<le> n \<and> n \<le> 214) \<or> (216 \<le> n \<and> n \<le> 222)
     then char_of (n + 32) else c)"

definition lower :: "string \<Rightarrow> string" where
  "lower s = map lower_char s"

text \<open>\<open>s.replace(old, new)\<close>: the occurrences of \<open>old\<close>, left to right, not overlapping.\<close>

function replace_str :: "string \<Rightarrow> string \<Rightarrow> string \<Rightarrow> string" where
  "replace_str old new s =
     (if old = [] then new @ concat (map (\<lambda>c. c # new) s)
      else if s = [] then []
      else if take (length old) s = old then new @ replace_str old new (drop (length old) s)
      else hd s # replace_str old new (tl s))"
  by pat_completeness auto
termination
  by (relation "measure (\<lambda>(old, new, s). length s)") (auto simp: Suc_le_eq)

declare replace_str.simps [simp del]


section \<open>Task model and validator\<close>

record Reminder =
  reminder_id :: string
  time_before :: int
  message :: "string option"
  sent :: bool

record Task =
  task_id :: string
  description :: string
  category :: string
  due_date :: datetime
  completed :: bool
  completed_at :: "datetime option"
  frequency :: "Frequency option"
  next_due_date :: "datetime option"
  reminders :: "Reminder list"
  created_at :: datetime
  updated_at :: datetime

text \<open>
  \<open>uuid.uuid4()\<close>: the program draws identifiers from a source it does not control.
  The source is an input of the model, a sequence of strings read in order.
\<close>

record uuid_gen =
  uuid_seq :: "nat \<Rightarrow> string"
  uuid_used :: nat

definition uuid4 :: "uuid_gen \<Rightarrow> string \<times> uuid_gen" where
  "uuid4 g = (uuid_seq g (uuid_used g), g\<lparr>uuid_used := Suc (uuid_used g)\<rparr>)"

text \<open>
  The keyword arguments of the constructors.  \<open>None\<close> is an absent key (for the
  optional fields \<open>completed_at\<close>, \<open>frequency\<close> and \<open>next_due_date\<close> also
  a null).  The values have the JSON type the field expects; a date field carries the
  verdict of the ISO-8601 parser of the standard library, which is not part of the
  repository.
\<close>

datatype dt_input = Parsed datetime | Unparsable

record reminder_kwargs =
  rk_id :: "string option"
  rk_time_before :: "int option"
  rk_message :: "string option"
  rk_sent :: "bool option"

record task_kwargs =
  kw_id :: "string option"
  kw_description :: "string option"
  kw_category :: "string option"
  kw_due_date :: "dt_input option"
  kw_completed :: "bool option"
  kw_completed_at :: "dt_input option"
  kw_frequency :: "Frequency option"
  kw_next_due_date :: "dt_input option"
  kw_reminders :: "reminder_kwargs list option"
  kw_created_at :: "dt_input option"
  kw_updated_at :: "dt_input option"

definition bind :: "error + 'a \<Rightarrow> ('a \<Rightarrow> error + 'b) \<Rightarrow> error + 'b" where
  "bind r f = (case r of Inl e \<Rightarrow> Inl e | Inr x \<Rightarrow> f x)"

text \<open>The transformation of \<open>Task.sanitize_description\<close>, and the validator itself.\<close>

definition sanitized :: "string \<Rightarrow> string" where
  "sanitized v =
     strip (replace_str ''</script>'' ''&lt;/script&gt;''
       (replace_str ''<script'' ''&lt;script''
         (filter (\<lambda>c. ord c \<ge> 32 \<or> c \<in> set [CHR 0x0A, CHR 0x09]) v)))"

definition sanitize_description :: "string \<Rightarrow> error + string" where
  "sanitize_description v = (if v = [] then Inl ValueError else Inr (sanitized v))"

definition sanitize_category :: "string \<Rightarrow> string" where
  "sanitize_category v =
     (let s = strip (filter (\<lambda>c. isalnum c \<or> c \<in> set ''_-. '') v)
      in if s = [] then ''general'' else s)"

text \<open>
  A field declared \<open>Field(..., min_length=a, max_length=b)\<close>: the library checks the
  length of the value it receives; the validators of the class that are not marked
  \<open>pre=True\<close> run on the value that passed.
\<close>

definition constr_length :: "nat option \<Rightarrow> nat option \<Rightarrow> string \<Rightarrow> error + string" where
  "constr_length min_length max_length v =
     (if (case min_length of None \<Rightarrow> False | Some a \<Rightarrow> length v < a) then Inl ValidationError
      else if (case max_length of None \<Rightarrow> False | Some b \<Rightarrow> length v > b) then Inl ValidationError
      else Inr v)"

definition validate_description :: "string option \<Rightarrow> error + string" where
  "validate_description raw =
     (case raw of
        None \<Rightarrow> Inl ValidationError
      | Some v \<Rightarrow>
          bind (constr_length (Some 1) (Some 500) v) (\<lambda>v.
            case sanitize_description v of
              Inl _ \<Rightarrow> Inl ValidationError
            | Inr s \<Rightarrow> Inr s))"

definition validate_category :: "string option \<Rightarrow> error + string" where
  "validate_category raw =
     (case raw of
        None \<Rightarrow> Inr ''general''
      | Some v \<Rightarrow> bind (constr_length None (Some 50) v) (\<lambda>v. Inr (sanitize_category v)))"

definition required_datetime :: "dt_input option \<Rightarrow> error + datetime" where
  "required_datetime raw =
     (case raw of Some (Parsed d) \<Rightarrow> Inr d | _ \<Rightarrow> Inl ValidationError)"

definition optional_datetime :: "dt_input option \<Rightarrow> error + datetime option" where
  "optional_datetime raw =
     (case raw of None \<Rightarrow> Inr None | Some (Parsed d) \<Rightarrow> Inr (Some d)
      | Some Unparsable \<Rightarrow> Inl ValidationError)"

definition default_datetime :: "datetime \<Rightarrow> dt_input option \<Rightarrow> error + datetime" where
  "default_datetime now raw =
     (case raw of None \<Rightarrow> Inr now | Some (Parsed d) \<Rightarrow> Inr d
      | Some Unparsable \<Rightarrow> Inl ValidationError)"

definition validate_frequency :: "Frequency option \<Rightarrow> error + Frequency option" where
  "validate_frequency raw =
     (case raw of None \<Rightarrow> Inr None
      | Some f \<Rightarrow> if Frequency_valid f then Inr (Some f) else Inl ValidationError)"

text \<open>\<open>Reminder(**kwargs)\<close>: the identifier is drawn when the key is absent.\<close>

definition Reminder_init :: "reminder_kwargs \<Rightarrow> uuid_gen \<Rightarrow> (error + Reminder) \<times> uuid_gen" where
  "Reminder_init kw g =
     (let (i, g') = (case rk_id kw of None \<Rightarrow> uuid4 g | Some s \<Rightarrow> (s, g))
      in (case rk_time_before kw of
            None \<Rightarrow> Inl ValidationError
          | Some tb \<Rightarrow>
              if tb < 0 then Inl ValidationError
              else Inr \<lparr>reminder_id = i, time_before = tb, message = rk_message kw,
                        sent = (case rk_sent kw of None \<Rightarrow> False | Some b \<Rightarrow> b)\<rparr>,
          g'))"

fun Reminders_init :: "reminder_kwargs list \<Rightarrow> uuid_gen \<Rightarrow> (error + Reminder list) \<times> uuid_gen" where
  "Reminders_init [] g = (Inr [], g)"
| "Reminders_init (kw # kws) g =
     (let (r, g1) = Reminder_init kw g;
          (rs, g2) = Reminders_init kws g1
      in (bind r (\<lambda>r'. bind rs (\<lambda>rs'. Inr (r' # rs'))), g2))"

text \<open>
  \<open>Task(**kwargs)\<close>.  The defaults are produced first (the identifier, then the
  identifiers of the reminders that lack one), every field is validated, and the first
  failure in field order is the error.
\<close>

definition Task_init :: "task_kwargs \<Rightarrow> datetime \<Rightarrow> uuid_gen \<Rightarrow> (error + Task) \<times> uuid_gen" where
  "Task_init kw now g =
     (let (i, g1) = (case kw_id kw of None \<Rightarrow> uuid4 g | Some s \<Rightarrow> (s, g));
          (rs, g2) = (case kw_reminders kw of None \<Rightarrow> (Inr [], g1)
                      | Some kws \<Rightarrow> Reminders_init kws g1)
      in (bind (validate_description (kw_description kw)) (\<lambda>de.
          bind (validate_category (kw_category kw)) (\<lambda>ca.
          bind (required_datetime (kw_due_date kw)) (\<lambda>du.
          bind (optional_datetime (kw_completed_at kw)) (\<lambda>co.
          bind (validate_frequency (kw_frequency kw)) (\<lambda>fr.
          bind (optional_datetime (kw_next_due_date kw)) (\<lambda>nx.
          bind rs (\<lambda>rems.
          bind (default_datetime now (kw_created_at kw)) (\<lambda>cr.
          bind (default_datetime now (kw_updated_at kw)) (\<lambda>up.
            Inr \<lparr>task_id = i, description = de, category = ca, due_date = du,
                 completed = (case kw_completed kw of None \<Rightarrow> False | Some b \<Rightarrow> b),
                 completed_at = co, frequency = fr, next_due_date = nx, reminders = rems,
                 created_at = cr, updated_at = up\<rparr>))))))))),
          g2))"

text \<open>A model instance passed as an argument is taken as it is.\<close>

definition Reminder_kwargs :: "Reminder \<Rightarrow> reminder_kwargs" where
  "Reminder_kwargs r =
     \<lparr>rk_id = Some (reminder_id r), rk_time_before = Some (time_before r),
      rk_message = message r, rk_sent = Some (sent r)\<rparr>"

text \<open>\<open>task.dict()\<close> with the dates in ISO format: the record written to the file.\<close>

definition Task_dict :: "Task \<Rightarrow> task_kwargs" where
  "Task_dict t =
     \<lparr>kw_id = Some (task_id t), kw_description = Some (description t),
      kw_category = Some (category t), kw_due_date = Some (Parsed (due_date t)),
      kw_completed = Some (completed t),
      kw_completed_at = map_option Parsed (completed_at t),
      kw_frequency = frequency t,
      kw_next_due_date = map_option Parsed (next_due_date t),
      kw_reminders = Some (map Reminder_kwargs (reminders t)),
      kw_created_at = Some (Parsed (created_at t)),
      kw_updated_at = Some (Parsed (updated_at t))\<rparr>"

section \<open>Comparing dates and instants\<close>

definition date_le :: "date \<Rightarrow> date \<Rightarrow> bool" where
  "date_le a b = (case a of (y, m, d) \<Rightarrow> case b of (y', m', d') \<Rightarrow>
     y < y' \<or> (y = y' \<and> (m < m' \<or> (m = m' \<and> d \<le> d'))))"

text \<open>Aware datetimes compare by their instant: microseconds since 0001-01-01 UTC.\<close>

definition instant :: "datetime \<Rightarrow> int" where
  "instant dt =
     (((toordinal (date_of dt) * 24 + hour dt) * 60 + minute dt) * 60 + second dt) * 1000000
     + microsecond dt - utcoffset dt"

section \<open>Persistence store\<close>

text \<open>
  The backing document: absent, not a JSON array, or an array whose entries are objects
  (the keyword arguments of a Task) or something else.
\<close>

datatype json_item = NotAnObject | Object task_kwargs

datatype document = Missing | Malformed | Array "json_item list"

text \<open>
  The state of the process and of the disk.  Python lists are objects: \<open>heap\<close> maps
  the reference of a list to its content, and \<open>cache_data\<close> holds a reference, as
  \<open>task_cache["data"]\<close> does.  \<open>writable\<close> says whether writing the temporary
  file and renaming it succeed; \<open>file_reads\<close> and \<open>file_writes\<close> count the times
  the backing document is read and replaced.
\<close>

record world =
  tasks_file :: document
  writable :: bool
  cache_data :: "nat option"
  cache_expires_at :: real
  heap :: "nat \<Rightarrow> Task list"
  next_ref :: nat
  file_reads :: nat
  file_writes :: nat
  uuids :: uuid_gen

definition CACHE_EXPIRATION :: real where
  "CACHE_EXPIRATION = 10"

definition new_list :: "Task list \<Rightarrow> world \<Rightarrow> nat \<times> world" where
  "new_list xs w =
     (next_ref w, w\<lparr>heap := (heap w)(next_ref w := xs), next_ref := Suc (next_ref w)\<rparr>)"

text \<open>
  The loop of \<open>load_tasks\<close>.  A record that fails validation is skipped.  An entry
  that is not an object makes \<open>Task(**item)\<close> raise and then \<open>item.get\<close> raise
  inside the handler: the loop is left (\<open>None\<close>).
\<close>

fun parse_items :: "json_item list \<Rightarrow> datetime \<Rightarrow> uuid_gen \<Rightarrow> Task list option \<times> uuid_gen" where
  "parse_items [] now g = (Some [], g)"
| "parse_items (NotAnObject # items) now g = (None, g)"
| "parse_items (Object kw # items) now g =
     (let (r, g1) = Task_init kw now g;
          (rest, g2) = parse_items items now g1
      in (case r of Inl _ \<Rightarrow> rest | Inr t \<Rightarrow> map_option ((#) t) rest, g2))"

text \<open>The part of \<open>load_tasks\<close> under the lock.\<close>

definition read_tasks :: "real \<Rightarrow> datetime \<Rightarrow> world \<Rightarrow> nat \<times> world" where
  "read_tasks current_time now w =
     (case tasks_file w of
        Missing \<Rightarrow> new_list [] w
      | Malformed \<Rightarrow> new_list [] (w\<lparr>file_reads := Suc (file_reads w)\<rparr>)
      | Array items \<Rightarrow>
          (case parse_items items now (uuids w) of
             (None, g) \<Rightarrow> new_list [] (w\<lparr>file_reads := Suc (file_reads w), uuids := g\<rparr>)
           | (Some tasks, g) \<Rightarrow>
               (let (a, w1) = new_list tasks (w\<lparr>file_reads := Suc (file_reads w), uuids := g\<rparr>)
                in (a, w1\<lparr>cache_data := Some a,
                          cache_expires_at := current_time + CACHE_EXPIRATION\<rparr>))))"

text \<open>
  \<open>load_tasks\<close> returns the reference of a list.  The test
  \<open>task_cache["data"] and current_time < task_cache["expires_at"]\<close> is false for
  \<open>None\<close> and for the empty list.
\<close>

definition load_tasks :: "real \<Rightarrow> datetime \<Rightarrow> world \<Rightarrow> nat \<times> world" where
  "load_tasks current_time now w =
     (case cache_data w of
        Some a \<Rightarrow>
          if heap w a \<noteq> [] \<and> current_time < cache_expires_at w then (a, w)
          else read_tasks current_time now w
      | None \<Rightarrow> read_tasks current_time now w)"

definition save_tasks :: "nat \<Rightarrow> world \<Rightarrow> bool \<times> world" where
  "save_tasks a w =
     (if writable w
      then (True, w\<lparr>tasks_file := Array (map (\<lambda>t. Object (Task_dict t)) (heap w a)),
                    cache_data := None, cache_expires_at := 0,
                    file_writes := Suc (file_writes w)\<rparr>)
      else (False, w))"

section \<open>Query and filter\<close>

text \<open>The slices \<open>xs[k:]\<close> and \<open>xs[:k]\<close>; a negative \<open>k\<close> counts from the end.\<close>

definition slice_from :: "'a list \<Rightarrow> int \<Rightarrow> 'a list" where
  "slice_from xs k = (if 0 \<le> k then drop (nat k) xs else drop (nat (int (length xs) + k)) xs)"

definition slice_to :: "'a list \<Rightarrow> int \<Rightarrow> 'a list" where
  "slice_to xs k = (if 0 \<le> k then take (nat k) xs else take (nat (int (length xs) + k)) xs)"

text \<open>
  \<open>filter_tasks\<close>; \<open>now\<close> is the value of \<open>datetime.now(timezone.utc)\<close> read at
  the start of the call.
\<close>

definition filter_tasks ::
  "datetime \<Rightarrow> Task list \<Rightarrow> string option \<Rightarrow> string option \<Rightarrow> string option \<Rightarrow> int option \<Rightarrow> int
    \<Rightarrow> error + Task list" where
  "filter_tasks now tasks due_date_arg status category_arg limit offset =
     (let today = date_of now
      in case date_add_days today 1 of
           Inl e \<Rightarrow> Inl e
         | Inr tomorrow \<Rightarrow>
             (let filtered1 =
                    (if due_date_arg = Some ''today''
                     then filter (\<lambda>t. date_of (due_date t) = today) tasks
                     else if due_date_arg = Some ''tomorrow''
                     then filter (\<lambda>t. date_of (due_date t) = tomorrow) tasks
                     else tasks);
                  filtered2 =
                    (if status = Some ''due''
                     then filter (\<lambda>t. \<not> completed t \<and> date_le (date_of (due_date t)) today) filtered1
                     else if status = Some ''overdue''
                     then filter (\<lambda>t. \<not> completed t \<and> instant (due_date t) < instant now) filtered1
                     else if status = Some ''completed''
                     then filter (\<lambda>t. completed t) filtered1
                     else filtered1);
                  filtered3 =
                    (case category_arg of
                       None \<Rightarrow> filtered2
                     | Some c \<Rightarrow>
                         if c \<noteq> [] then filter (\<lambda>t. lower (category t) = lower c) filtered2
                         else filtered2);
                  filtered4 = (if offset \<noteq> 0 then slice_from filtered3 offset else filtered3);
                  filtered5 =
                    (case limit of
                       None \<Rightarrow> filtered4
                     | Some l \<Rightarrow> if l \<noteq> 0 then slice_to filtered4 l else filtered4)
              in Inr filtered5))"

section \<open>Endpoints\<close>

record TaskCreate =
  tc_description :: string
  tc_category :: string
  tc_due_date :: datetime
  tc_frequency :: "Frequency option"
  tc_reminders :: "Reminder list"

record TaskUpdate =
  tu_description :: "string option"
  tu_category :: "string option"
  tu_due_date :: "datetime option"
  tu_frequency :: "Frequency option"
  tu_reminders :: "Reminder list option"

text \<open>The search \<open>for i, task in enumerate(tasks): if task.id == task_id\<close>.\<close>

fun find_index :: "('a \<Rightarrow> bool) \<Rightarrow> 'a list \<Rightarrow> nat option" where
  "find_index P [] = None"
| "find_index P (x # xs) = (if P x then Some 0 else map_option Suc (find_index P xs))"

text \<open>
  The end of the three mutating endpoints: \<open>save_tasks\<close>, then the task or the
  status 500.
\<close>

definition save_and_return :: "nat \<Rightarrow> Task \<Rightarrow> world \<Rightarrow> (error + Task) \<times> world" where
  "save_and_return a task w =
     (let (ok, w') = save_tasks a w
      in if ok then (Inr task, w') else (Inl (HTTPException 500), w'))"

definition set_next_due_date :: "Task \<Rightarrow> Frequency \<Rightarrow> error + Task" where
  "set_next_due_date task f =
     bind (calculate_next_due_date (due_date task) f)
       (\<lambda>n. Inr (task\<lparr>next_due_date := Some n\<rparr>))"

definition create_task :: "TaskCreate \<Rightarrow> real \<Rightarrow> datetime \<Rightarrow> world \<Rightarrow> (error + Task) \<times> world" where
  "create_task task_data current_time now w =
     (let (a, w1) = load_tasks current_time now w;
          (r, g) = Task_init
                     \<lparr>kw_id = None, kw_description = Some (tc_description task_data),
                      kw_category = Some (tc_category task_data),
                      kw_due_date = Some (Parsed (tc_due_date task_data)),
                      kw_completed = None, kw_completed_at = None,
                      kw_frequency = tc_frequency task_data, kw_next_due_date = None,
                      kw_reminders = Some (map Reminder_kwargs (tc_reminders task_data)),
                      kw_created_at = None, kw_updated_at = None\<rparr>
                     now (uuids w1);
          w2 = w1\<lparr>uuids := g\<rparr>
      in case r of
           Inl _ \<Rightarrow> (Inl (HTTPException 500), w2)
         | Inr new_task \<Rightarrow>
             (case (case frequency new_task of
                      None \<Rightarrow> Inr new_task
                    | Some f \<Rightarrow> set_next_due_date new_task f) of
                Inl _ \<Rightarrow> (Inl (HTTPException 500), w2)
              | Inr new_task' \<Rightarrow>
                  save_and_return a new_task'
                    (w2\<lparr>heap := (heap w2)(a := heap w2 a @ [new_task'])\<rparr>)))"

text \<open>
  \<open>update_task\<close> assigns the given fields to the task object found, in place; the
  next due date is recomputed inside the branch of the frequency.
\<close>

definition update_task ::
  "string \<Rightarrow> TaskUpdate \<Rightarrow> real \<Rightarrow> datetime \<Rightarrow> world \<Rightarrow> (error + Task) \<times> world" where
  "update_task tid task_update current_time now w =
     (let (a, w1) = load_tasks current_time now w;
          tasks = heap w1 a
      in case find_index (\<lambda>t. task_id t = tid) tasks of
           None \<Rightarrow> (Inl (HTTPException 404), w1)
         | Some task_index \<Rightarrow>
             (let task = tasks ! task_index;
                  task1 = (case tu_description task_update of
                             None \<Rightarrow> task | Some v \<Rightarrow> task\<lparr>description := v\<rparr>);
                  task2 = (case tu_category task_update of
                             None \<Rightarrow> task1 | Some v \<Rightarrow> task1\<lparr>category := v\<rparr>);
                  task3 = (case tu_due_date task_update of
                             None \<Rightarrow> task2 | Some v \<Rightarrow> task2\<lparr>due_date := v\<rparr>);
                  put = (\<lambda>t. w1\<lparr>heap := (heap w1)(a := tasks[task_index := t])\<rparr>);
                  finish = (\<lambda>task4.
                    (let task5 = (case tu_reminders task_update of
                                    None \<Rightarrow> task4 | Some v \<Rightarrow> task4\<lparr>reminders := v\<rparr>);
                         task6 = task5\<lparr>updated_at := now\<rparr>
                     in save_and_return a task6 (put task6)))
              in case tu_frequency task_update of
                   None \<Rightarrow> finish task3
                 | Some f \<Rightarrow>
                     (case set_next_due_date (task3\<lparr>frequency := Some f\<rparr>) f of
                        Inl _ \<Rightarrow> (Inl (HTTPException 500), put (task3\<lparr>frequency := Some f\<rparr>))
                      | Inr task4 \<Rightarrow> finish task4)))"

text \<open>
  The new occurrence made by \<open>complete_task\<close>: the reminders are constructed first,
  from \<open>time_before\<close> and \<open>message\<close> alone, then the Task, then its next due date.
\<close>

definition reschedule :: "Task \<Rightarrow> Frequency \<Rightarrow> datetime \<Rightarrow> uuid_gen \<Rightarrow> (error + Task) \<times> uuid_gen" where
  "reschedule task f now g =
     (case calculate_next_due_date (due_date task) f of
        Inl e \<Rightarrow> (Inl e, g)
      | Inr next_due \<Rightarrow>
          (let (rs, g1) = Reminders_init
                            (map (\<lambda>r. \<lparr>rk_id = None, rk_time_before = Some (time_before r),
                                       rk_message = message r, rk_sent = None\<rparr>)
                               (reminders task)) g
           in case rs of
                Inl e \<Rightarrow> (Inl e, g1)
              | Inr rems \<Rightarrow>
                  (let (r, g2) = Task_init
                                   \<lparr>kw_id = None, kw_description = Some (description task),
                                    kw_category = Some (category task),
                                    kw_due_date = Some (Parsed next_due),
                                    kw_completed = None, kw_completed_at = None,
                                    kw_frequency = Some f, kw_next_due_date = None,
                                    kw_reminders = Some (map Reminder_kwargs rems),
                                    kw_created_at = None, kw_updated_at = None\<rparr>
                                   now g1
                   in (bind r (\<lambda>new_task.
                         case frequency new_task of
                           None \<Rightarrow> Inl TypeError
                         | Some f' \<Rightarrow> set_next_due_date new_task f'), g2))))"

definition complete_task ::
  "string \<Rightarrow> bool \<Rightarrow> real \<Rightarrow> datetime \<Rightarrow> world \<Rightarrow> (error + Task) \<times> world" where
  "complete_task tid auto_reschedule current_time now w =
     (let (a, w1) = load_tasks current_time now w;
          tasks = heap w1 a
      in case find_index (\<lambda>t. task_id t = tid) tasks of
           None \<Rightarrow> (Inl (HTTPException 404), w1)
         | Some task_index \<Rightarrow>
             (let task = (tasks ! task_index)
                           \<lparr>completed := True, completed_at := Some now, updated_at := now\<rparr>;
                  w2 = w1\<lparr>heap := (heap w1)(a := tasks[task_index := task])\<rparr>
              in case (if auto_reschedule then frequency task else None) of
                   None \<Rightarrow> save_and_return a task w2
                 | Some f \<Rightarrow>
                     (case reschedule task f now (uuids w2) of
                        (Inl _, g) \<Rightarrow> (Inl (HTTPException 500), w2\<lparr>uuids := g\<rparr>)
                      | (Inr new_task, g) \<Rightarrow>
                          save_and_return a task
                            (w2\<lparr>heap := (heap w2)(a := heap w2 a @ [new_task]),
                                uuids := g\<rparr>))))"


section \<open>Bulk import\<close>

datatype upload = TooLarge | InvalidJson | NoArray | Items "json_item list"

record ImportSummary =
  success_count :: nat
  skipped_count :: nat
  invalid_count :: nat
  errors :: "(nat \<times> error) list"

text \<open>The variables of the import loop; an error message is the item number and the error.\<close>

record import_state =
  existing_tasks :: "Task list"
  existing_ids :: "string set"
  successes :: nat
  skipped :: nat
  invalid :: nat
  messages :: "(nat \<times> error) list"
  gen :: uuid_gen

definition duplicate_id :: "json_item \<Rightarrow> string set \<Rightarrow> bool" where
  "duplicate_id item ids =
     (case item of
        NotAnObject \<Rightarrow> False
      | Object kw \<Rightarrow> (case kw_id kw of None \<Rightarrow> False | Some x \<Rightarrow> x \<in> ids))"

definition count_invalid :: "nat \<Rightarrow> error \<Rightarrow> import_state \<Rightarrow> import_state" where
  "count_invalid i e st = st\<lparr>invalid := Suc (invalid st), messages := messages st @ [(i + 1, e)]\<rparr>"

definition import_item :: "json_item \<Rightarrow> nat \<Rightarrow> datetime \<Rightarrow> import_state \<Rightarrow> import_state" where
  "import_item item i now st =
     (if duplicate_id item (existing_ids st) then st\<lparr>skipped := Suc (skipped st)\<rparr>
      else case item of
             NotAnObject \<Rightarrow> count_invalid i TypeError st
           | Object kw \<Rightarrow>
               (let (r, g) = Task_init kw now (gen st);
                    st1 = st\<lparr>gen := g\<rparr>
                in case bind r (\<lambda>task.
                          case frequency task of
                            None \<Rightarrow> Inr task
                          | Some f \<Rightarrow> if next_due_date task = None then set_next_due_date task f
                                      else Inr task) of
                     Inl e \<Rightarrow> count_invalid i e st1
                   | Inr task \<Rightarrow>
                       st1\<lparr>existing_tasks := existing_tasks st1 @ [task],
                           existing_ids := insert (task_id task) (existing_ids st1),
                           successes := Suc (successes st1)\<rparr>))"

fun import_loop :: "json_item list \<Rightarrow> nat \<Rightarrow> datetime \<Rightarrow> import_state \<Rightarrow> import_state" where
  "import_loop [] i now st = st"
| "import_loop (item # items) i now st = import_loop items (Suc i) now (import_item item i now st)"

definition import_tasks ::
  "upload \<Rightarrow> real \<Rightarrow> datetime \<Rightarrow> world \<Rightarrow> (error + ImportSummary) \<times> world" where
  "import_tasks file current_time now w =
     (case file of
        TooLarge \<Rightarrow> (Inl (HTTPException 413), w)
      | InvalidJson \<Rightarrow> (Inl (HTTPException 400), w)
      | NoArray \<Rightarrow> (Inl (HTTPException 400), w)
      | Items import_data \<Rightarrow>
          (let (a, w1) = load_tasks current_time now w;
               st = import_loop import_data 0 now
                      \<lparr>existing_tasks = heap w1 a, existing_ids = task_id ` set (heap w1 a),
                       successes = 0, skipped = 0, invalid = 0, messages = [], gen = uuids w1\<rparr>;
               w2 = w1\<lparr>heap := (heap w1)(a := existing_tasks st), uuids := gen st\<rparr>;
               summary = \<lparr>success_count = successes st, skipped_count = skipped st,
                          invalid_count = invalid st, errors = take 10 (messages st)\<rparr>
           in if successes st > 0
              then (let (ok, w3) = save_tasks a w2
                    in if ok then (Inr summary, w3) else (Inl (HTTPException 500), w3))
              else (Inr summary, w2)))"

section \<open>The invariant of the next due date\<close>

text \<open>
  The invariant of the data model: a task with a frequency carries the recurrence of its
  due date as next due date.
\<close>

definition consistent :: "Task \<Rightarrow> bool" where
  "consistent t =
     (case frequency t of
        None \<Rightarrow> True
      | Some f \<Rightarrow> map_option Inr (next_due_date t) = Some (calculate_next_due_date (due_date t) f))"

section \<open>The filter stages in the words of the specification\<close>

text \<open>
  Each option as a predicate on tasks: an absent option lets every task pass (so does an
  empty category); pagination is offset, then limit.
\<close>

definition spec_due_date :: "date \<Rightarrow> date \<Rightarrow> string option \<Rightarrow> Task \<Rightarrow> bool" where
  "spec_due_date today tomorrow opt t =
     (if opt = Some ''today'' then date_of (due_date t) = today
      else if opt = Some ''tomorrow'' then date_of (due_date t) = tomorrow
      else True)"

definition spec_status :: "datetime \<Rightarrow> string option \<Rightarrow> Task \<Rightarrow> bool" where
  "spec_status now opt t =
     (if opt = Some ''due'' then \<not> completed t \<and> date_le (date_of (due_date t)) (date_of now)
      else if opt = Some ''overdue'' then \<not> completed t \<and> instant (due_date t) < instant now
      else if opt = Some ''completed'' then completed t
      else True)"

definition spec_category :: "string option \<Rightarrow> Task \<Rightarrow> bool" where
  "spec_category opt t =
     (case opt of None \<Rightarrow> True | Some c \<Rightarrow> c = [] \<or> lower (category t) = lower c)"

definition spec_page :: "int option \<Rightarrow> int \<Rightarrow> 'a list \<Rightarrow> 'a list" where
  "spec_page limit offset xs =
     (case limit of None \<Rightarrow> drop (nat offset) xs | Some l \<Rightarrow> take (nat l) (drop (nat offset) xs))"

section \<open>Sample values\<close>

definition thursday :: datetime where
  "thursday = \<lparr>year = 2024, month = 1, day = 4, hour = 9, minute = 30, second = 0,
     microsecond = 0, utcoffset = 0\<rparr>"

definition wed_fri :: Frequency where
  "wed_fri = \<lparr>ftype = ''weekly'', interval = 2, days_of_week = Some [2, 4], day_of_month = None\<rparr>"

definition march_15 :: datetime where
  "march_15 = \<lparr>year = 2024, month = 3, day = 15, hour = 18, minute = 0, second = 0,
     microsecond = 0, utcoffset = 0\<rparr>"

definition monthly_31 :: Frequency where
  "monthly_31 = \<lparr>ftype = ''monthly'', interval = 1, days_of_week = None, day_of_month = Some 31\<rparr>"


definition blank_kwargs :: task_kwargs where
  "blank_kwargs = \<lparr>kw_id = Some ''t1'', kw_description = Some ''   '', kw_category = None,
     kw_due_date = Some (Parsed thursday), kw_completed = None, kw_completed_at = None,
     kw_frequency = None, kw_next_due_date = None, kw_reminders = None,
     kw_created_at = None, kw_updated_at = None\<rparr>"


definition gen0 :: uuid_gen where
  "gen0 = \<lparr>uuid_seq = (\<lambda>n. ''uuid-'' @ replicate n (CHR ''x'')), uuid_used = 0\<rparr>"

definition valid_kwargs :: task_kwargs where
  "valid_kwargs = blank_kwargs\<lparr>kw_description := Some ''water the plants''\<rparr>"

definition empty_world :: world where
  "empty_world = \<lparr>tasks_file = Array [], writable = True, cache_data = None,
     cache_expires_at = 0, heap = (\<lambda>_. []), next_ref = 0, file_reads = 0, file_writes = 0,
     uuids = gen0\<rparr>"

definition one_task_world :: world where
  "one_task_world = empty_world\<lparr>tasks_file := Array [Object valid_kwargs]\<rparr>"

definition plants :: Task where
  "plants = \<lparr>task_id = ''t1'', description = ''water the plants'', category = ''general'',
     due_date = thursday, completed = False, completed_at = None, frequency = None,
     next_due_date = None, reminders = [], created_at = thursday, updated_at = thursday\<rparr>"


definition due_today :: Task where
  "due_today = plants\<lparr>task_id := ''a'', due_date := thursday\<lparr>hour := 18\<rparr>\<rparr>"

definition due_yesterday :: Task where
  "due_yesterday = plants\<lparr>task_id := ''b'', due_date := thursday\<lparr>day := 3\<rparr>\<rparr>"

definition done_today :: Task where
  "done_today = plants\<lparr>task_id := ''c'', due_date := thursday\<lparr>hour := 8\<rparr>, completed := True,
     completed_at := Some thursday\<rparr>"

definition daily :: Frequency where
  "daily = \<lparr>ftype = ''daily'', interval = 1, days_of_week = None, day_of_month = None\<rparr>"

definition daily_task :: Task where
  "daily_task = plants\<lparr>frequency := Some daily, next_due_date := Some (thursday\<lparr>day := 5\<rparr>)\<rparr>"

definition daily_world :: world where
  "daily_world = empty_world\<lparr>tasks_file := Array [Object (Task_dict daily_task)]\<rparr>"

definition new_due_date :: TaskUpdate where
  "new_due_date = \<lparr>tu_description = None, tu_category = None, tu_due_date = Some march_15,
     tu_frequency = None, tu_reminders = None\<rparr>"

section \<open>Calendar arithmetic\<close>

lemma div_step:
  fixes y k :: int
  assumes "0 < k"
  shows "y div k = (y - 1) div k + (if y mod k = 0 then 1 else 0)"
proof (cases "y mod k = 0")
  case True
  have "y - 1 = k * (y div k - 1) + (k - 1)"
    using True by (simp add: algebra_simps) (metis mult_div_mod_eq add.right_neutral)
  with assms have "(y - 1) div k = y div k - 1"
    by (intro int_div_pos_eq [where r = "k - 1"]) simp_all
  with True show ?thesis by simp
next
  case False
  have r: "0 \<le> y mod k - 1" "y mod k - 1 < k"
    using False assms pos_mod_sign [of k y] pos_mod_bound [of k y] by linarith+
  have "y - 1 = k * (y div k) + (y mod k - 1)"
    by (simp add: algebra_simps)
  with r have "(y - 1) div k = y div k"
    by (intro int_div_pos_eq [where r = "y mod k - 1"]) simp_all
  with False show ?thesis by simp
qed

lemma mod_facts: "(y::int) mod 400 = 0 \<Longrightarrow> y mod 100 = 0" "(y::int) mod 100 = 0 \<Longrightarrow> y mod 4 = 0"
  using mod_mod_cancel [of 100 400 y] mod_mod_cancel [of 4 100 y] by simp_all

lemma dby_Suc: "days_before_year (y + 1) = days_before_year y + (if is_leap y then 366 else 365)"
proof -
  define A B C A' B' C' where "A = (y - 1) div 4" and "B = (y - 1) div 100" and "C = (y - 1) div 400"
    and "A' = y div 4" and "B' = y div 100" and "C' = y div 400"
  define P Q R where "P \<longleftrightarrow> y mod 4 = 0" and "Q \<longleftrightarrow> y mod 100 = 0" and "R \<longleftrightarrow> y mod 400 = 0"
  have a: "A' = A + (if P then 1 else 0)"
    unfolding A'_def A_def P_def by (rule div_step) simp
  have b: "B' = B + (if Q then 1 else 0)"
    unfolding B'_def B_def Q_def by (rule div_step) simp
  have c: "C' = C + (if R then 1 else 0)"
    unfolding C'_def C_def R_def by (rule div_step) simp
  have imp: "R \<longrightarrow> Q" "Q \<longrightarrow> P"
    unfolding P_def Q_def R_def using mod_facts [of y] by blast+
  have l: "is_leap y \<longleftrightarrow> P \<and> (\<not> Q \<or> R)"
    unfolding is_leap_def P_def Q_def R_def ..
  have e1: "days_before_year (y + 1) = y * 365 + A' - B' + C'"
    unfolding days_before_year_def A'_def B'_def C'_def by (simp only: add_diff_cancel_right')
  have e0: "days_before_year y = (y - 1) * 365 + A - B + C"
    unfolding days_before_year_def A_def B_def C_def ..
  show ?thesis
    unfolding e1 e0 l a b c using imp by (cases P; cases Q; cases R) simp_all
qed


lemma month_cases:
  fixes m :: int
  assumes "1 \<le> m" "m \<le> 12"
  shows "m = 1 \<or> m = 2 \<or> m = 3 \<or> m = 4 \<or> m = 5 \<or> m = 6 \<or> m = 7 \<or> m = 8 \<or> m = 9 \<or> m = 10 \<or> m = 11 \<or> m = 12"
  using assms by arith

lemma toordinal_succ: "md_valid d \<Longrightarrow> toordinal (date_succ d) = toordinal d + 1"
proof -
  assume v: "md_valid d"
  obtain y m dd where d: "d = (y, m, dd)" by (cases d)
  from v d have m: "1 \<le> m" "m \<le> 12" and dd: "1 \<le> dd" "dd \<le> days_in_month y m"
    by (simp_all add: md_valid_def)
  from month_cases [OF m] dd show ?thesis
    unfolding d toordinal_def date_succ_def
    by (elim disjE) (simp_all add: days_in_month_def days_before_month_def dby_Suc)
qed

lemma md_valid_succ: "md_valid d \<Longrightarrow> md_valid (date_succ d)"
proof -
  assume v: "md_valid d"
  obtain y m dd where d: "d = (y, m, dd)" by (cases d)
  from v d have m: "1 \<le> m" "m \<le> 12" and dd: "1 \<le> dd" "dd \<le> days_in_month y m"
    by (simp_all add: md_valid_def)
  from month_cases [OF m] dd show ?thesis
    unfolding d md_valid_def date_succ_def
    by (elim disjE) (simp_all add: days_in_month_def)
qed

lemma toordinal_pred: "md_valid d \<Longrightarrow> toordinal (date_pred d) = toordinal d - 1"
proof -
  assume v: "md_valid d"
  obtain y m dd where d: "d = (y, m, dd)" by (cases d)
  from v d have m: "1 \<le> m" "m \<le> 12" and dd: "1 \<le> dd" "dd \<le> days_in_month y m"
    by (simp_all add: md_valid_def)
  have y: "days_before_year y = days_before_year (y - 1) + (if is_leap (y - 1) then 366 else 365)"
    using dby_Suc [of "y - 1"] by simp
  from month_cases [OF m] dd show ?thesis
    unfolding d toordinal_def date_pred_def
    by (elim disjE) (simp_all add: days_in_month_def days_before_month_def y)
qed

lemma md_valid_pred: "md_valid d \<Longrightarrow> md_valid (date_pred d)"
proof -
  assume v: "md_valid d"
  obtain y m dd where d: "d = (y, m, dd)" by (cases d)
  from v d have m: "1 \<le> m" "m \<le> 12" and dd: "1 \<le> dd" "dd \<le> days_in_month y m"
    by (simp_all add: md_valid_def)
  from month_cases [OF m] dd show ?thesis
    unfolding d md_valid_def date_pred_def
    by (elim disjE) (simp_all add: days_in_month_def)
qed


lemma dby_mono_nat: "days_before_year y \<le> days_before_year (y + int n)"
proof (induction n)
  case 0
  show ?case by simp
next
  case (Suc n)
  have "days_before_year (y + int n) \<le> days_before_year (y + int n + 1)"
    unfolding dby_Suc by simp
  with Suc show ?case by (simp add: add.assoc add.commute [of 1])
qed

lemma dby_mono: "y \<le> y' \<Longrightarrow> days_before_year y \<le> days_before_year y'"
  using dby_mono_nat [of y "nat (y' - y)"] by simp

lemma toordinal_in_year:
  assumes "md_valid (y, m, dd)"
  shows "days_before_year y < toordinal (y, m, dd)" "toordinal (y, m, dd) \<le> days_before_year (y + 1)"
proof -
  from assms have m: "1 \<le> m" "m \<le> 12" and dd: "1 \<le> dd" "dd \<le> days_in_month y m"
    by (simp_all add: md_valid_def)
  from month_cases [OF m] dd show "days_before_year y < toordinal (y, m, dd)"
    unfolding toordinal_def
    by (elim disjE) (simp_all add: days_in_month_def days_before_month_def)
  from month_cases [OF m] dd show "toordinal (y, m, dd) \<le> days_before_year (y + 1)"
    unfolding toordinal_def dby_Suc
    by (elim disjE) (auto simp: days_in_month_def days_before_month_def split: if_splits)
qed

lemma dby_1: "days_before_year 1 = 0"
  by (simp add: days_before_year_def)

lemma dby_max: "days_before_year 10000 = MAXORDINAL"
  by (simp add: days_before_year_def MAXORDINAL_def)

lemma valid_date_iff: "valid_date d \<longleftrightarrow> md_valid d \<and> 0 < toordinal d \<and> toordinal d \<le> MAXORDINAL"
proof -
  obtain y m dd where d: "d = (y, m, dd)" by (cases d)
  show ?thesis
  proof (cases "md_valid d")
    case False
    then show ?thesis by (auto simp: valid_date_def md_valid_def d)
  next
    case True
    note t = toordinal_in_year [OF True [unfolded d]]
    have "0 < toordinal d \<longleftrightarrow> 1 \<le> y"
    proof
      assume "0 < toordinal d"
      show "1 \<le> y"
      proof (rule ccontr)
        assume "\<not> 1 \<le> y"
        then have "days_before_year (y + 1) \<le> days_before_year 1" by (intro dby_mono) simp
        with t \<open>0 < toordinal d\<close> show False by (simp add: d dby_1)
      qed
    next
      assume "1 \<le> y"
      then have "days_before_year 1 \<le> days_before_year y" by (rule dby_mono)
      with t show "0 < toordinal d" by (simp add: d dby_1)
    qed
    moreover have "toordinal d \<le> MAXORDINAL \<longleftrightarrow> y \<le> 9999"
    proof
      assume a: "toordinal d \<le> MAXORDINAL"
      show "y \<le> 9999"
      proof (rule ccontr)
        assume "\<not> y \<le> 9999"
        then have "days_before_year 10000 \<le> days_before_year y" by (intro dby_mono) simp
        with t a show False by (simp add: d dby_max)
      qed
    next
      assume "y \<le> 9999"
      then have "days_before_year (y + 1) \<le> days_before_year 10000" by (intro dby_mono) simp
      with t show "toordinal d \<le> MAXORDINAL" by (simp add: d dby_max)
    qed
    ultimately show ?thesis using True
      by (auto simp: valid_date_def md_valid_def d MINYEAR_def MAXYEAR_def)
  qed
qed

lemma iter_succ:
  "md_valid d \<Longrightarrow> md_valid ((date_succ ^^ n) d) \<and> toordinal ((date_succ ^^ n) d) = toordinal d + int n"
  by (induction n) (simp_all add: md_valid_succ toordinal_succ)

lemma iter_pred:
  "md_valid d \<Longrightarrow> md_valid ((date_pred ^^ n) d) \<and> toordinal ((date_pred ^^ n) d) = toordinal d - int n"
  by (induction n) (simp_all add: md_valid_pred toordinal_pred)

lemma date_add_days_ok:
  assumes "valid_date d" "date_add_days d n = Inr r"
  shows "valid_date r" "toordinal r = toordinal d + n"
proof -
  from assms(1) have mv: "md_valid d" by (simp add: valid_date_iff)
  from assms(2) have rng: "0 < toordinal d + n" "toordinal d + n \<le> MAXORDINAL"
    and r: "r = (if 0 \<le> n then (date_succ ^^ nat n) d else (date_pred ^^ nat (- n)) d)"
    by (auto simp: date_add_days_def split: if_splits)
  have *: "md_valid r \<and> toordinal r = toordinal d + n"
    using iter_succ [OF mv, of "nat n"] iter_pred [OF mv, of "nat (- n)"] r by (cases "0 \<le> n") simp_all
  then show "toordinal r = toordinal d + n" ..
  with * rng show "valid_date r" by (simp add: valid_date_iff)
qed

lemma date_add_days_defined:
  "date_add_days d n = (if \<bar>n\<bar> \<le> 999999999 \<and> 0 < toordinal d + n \<and> toordinal d + n \<le> MAXORDINAL
     then Inr (if 0 \<le> n then (date_succ ^^ nat n) d else (date_pred ^^ nat (- n)) d) else Inl OverflowError)"
  by (simp add: date_add_days_def)

section \<open>Weekly recurrence on given weekdays\<close>

lemma find_sorted_Min:
  fixes xs :: "int list"
  assumes "sorted xs"
  shows "find P xs = (if filter P xs = [] then None else Some (Min (set (filter P xs))))"
  using assms
proof (induction xs)
  case Nil
  show ?case by simp
next
  case (Cons x xs)
  show ?case
  proof (cases "P x")
    case True
    have "Min (insert x {a \<in> set xs. P a}) = x"
      using Cons.prems by (intro Min_eqI) auto
    with True show ?thesis by simp
  next
    case False
    with Cons show ?thesis by simp
  qed
qed

lemma hd_sort_Min:
  fixes xs :: "int list"
  assumes "xs \<noteq> []"
  shows "hd (sort xs) = Min (set xs)"
proof -
  obtain y ys where s: "sort xs = y # ys"
    using assms by (cases "sort xs") (auto dest: arg_cong [where f = length])
  have "sorted (y # ys)" using sorted_sort [of xs] by (simp add: s)
  then have "\<forall>z\<in>set ys. y \<le> z" by simp
  moreover have "set xs = insert y (set ys)" using arg_cong [OF s, of set] by simp
  ultimately have "Min (set xs) = y" by (intro Min_eqI) auto
  then show ?thesis by (simp add: s)
qed

lemma weekday_range: "0 \<le> weekday d" "weekday d \<le> 6"
  unfolding weekday_def using pos_mod_sign [of 7 "toordinal d + 6"] pos_mod_bound [of 7 "toordinal d + 6"]
  by simp_all

lemma ordinal_week: "toordinal d - 1 = 7 * week_index d + weekday d"
proof -
  have "(toordinal d + 6) mod 7 = (toordinal d - 1) mod 7"
    using mod_add_self2 [of "toordinal d - 1" 7] by (simp add: algebra_simps)
  then show ?thesis unfolding week_index_def weekday_def by (simp only: mult_div_mod_eq)
qed

lemma week_from_ordinal:
  assumes "toordinal r - 1 = 7 * w + t" "0 \<le> t" "t \<le> 6"
  shows "weekday r = t" "week_index r = w"
proof -
  from assms have "t < 7" by simp
  from ordinal_week [of r] weekday_range [of r] have
    e: "toordinal r - 1 = 7 * week_index r + weekday r" and b: "0 \<le> weekday r" "weekday r < 7"
    by simp_all
  show "week_index r = w"
    using int_div_pos_eq [OF assms(1) assms(2) \<open>t < 7\<close>] by (simp add: week_index_def)
  have "(toordinal r - 1) mod 7 = t"
    by (rule int_mod_pos_eq [OF assms(1) assms(2) \<open>t < 7\<close>])
  moreover have "(toordinal r - 1) mod 7 = weekday r"
    by (rule int_mod_pos_eq [OF e b])
  ultimately show "weekday r = t" by simp
qed


lemma add_days_ok:
  assumes "valid_date (date_of d)" "add_days d n = Inr r"
  shows "valid_date (date_of r)" "toordinal (date_of r) = toordinal (date_of d) + n"
    "r = with_date d (date_of r)"
proof -
  from assms(2) obtain x where x: "date_add_days (date_of d) n = Inr x" and r: "r = with_date d x"
    by (auto simp: add_days_def split: sum.splits)
  have dr: "date_of r = x"
    by (cases x) (simp add: r with_date_def date_of_def)
  from date_add_days_ok [OF assms(1) x] show "valid_date (date_of r)"
    "toordinal (date_of r) = toordinal (date_of d) + n" by (simp_all add: dr)
  show "r = with_date d (date_of r)" unfolding dr by (rule r)
qed

lemma add_days_defined:
  assumes "\<bar>n\<bar> \<le> 999999999" "0 < toordinal (date_of d) + n" "toordinal (date_of d) + n \<le> MAXORDINAL"
  shows "\<exists>r. add_days d n = Inr r"
  using assms by (simp add: add_days_def date_add_days_def)

lemma weekly_branch:
  assumes "ftype f = ''weekly''" "days_of_week f = Some ds" "ds \<noteq> []"
  shows "calculate_next_due_date d f =
     (let cw = weekday (date_of d); later = filter (\<lambda>x. cw < x) ds
      in if later = [] then add_days d ((7 - cw) + Min (set ds))
         else add_days d (Min (set later) - cw))"
proof -
  obtain d0 ds' where c: "ds = d0 # ds'" using assms(3) by (cases ds) auto
  have f: "filter (\<lambda>x. weekday (date_of d) < x) (sort ds) = [] \<longleftrightarrow> filter (\<lambda>x. weekday (date_of d) < x) ds = []"
    by (simp add: filter_empty_conv)
  have s: "set (filter (\<lambda>x. weekday (date_of d) < x) (sort ds)) = set (filter (\<lambda>x. weekday (date_of d) < x) ds)"
    by simp
  have n: "next_target (weekday (date_of d)) (sort ds) =
      (if filter (\<lambda>x. weekday (date_of d) < x) ds = [] then None
       else Some (Min (set (filter (\<lambda>x. weekday (date_of d) < x) ds))))"
    unfolding next_target_def using find_sorted_Min [OF sorted_sort, of "\<lambda>x. weekday (date_of d) < x" ds]
    unfolding f s .
  have h: "hd (sort ds) = Min (set ds)" by (rule hd_sort_Min [OF assms(3)])
  have "calculate_next_due_date d f =
      (case next_target (weekday (date_of d)) (sort ds) of
         None \<Rightarrow> add_days d ((7 - weekday (date_of d)) + hd (sort ds))
       | Some next_day \<Rightarrow> add_days d (next_day - weekday (date_of d)))"
    unfolding calculate_next_due_date_def c using assms(1,2) unfolding c by (simp add: Let_def del: sort_key_simps)
  then show ?thesis unfolding n h by (simp add: Let_def)
qed


text \<open>
  C4: for a weekly frequency with a non-empty set of target weekdays (each in 0..6),
  the next due date is the smallest target weekday strictly later in the week of the
  current due date when there is one, and otherwise the smallest target weekday of the
  following week, \<open>(7 - current weekday) + first target\<close> days ahead; the interval
  plays no role.  With targets [2, 4] and a Thursday the result is one day later.
\<close>

theorem weekly_days_of_week:
  assumes v: "valid_date (date_of d)"
    and w: "ftype f = ''weekly''"
    and ds: "days_of_week f = Some ds" "ds \<noteq> []"
    and rng: "\<forall>x\<in>set ds. 0 \<le> x \<and> x \<le> 6"
  shows "let cw = weekday (date_of d);
             later = filter (\<lambda>x. cw < x) ds;
             target = (if later = [] then Min (set ds) else Min (set later));
             days_ahead = (if later = [] then (7 - cw) + target else target - cw)
         in calculate_next_due_date d f = add_days d days_ahead
          \<and> calculate_next_due_date d (f\<lparr>interval := k\<rparr>) = calculate_next_due_date d f
          \<and> 0 < days_ahead
          \<and> (toordinal (date_of d) + days_ahead \<le> MAXORDINAL \<longrightarrow>
               (\<exists>r. calculate_next_due_date d f = Inr r))
          \<and> (\<forall>r. calculate_next_due_date d f = Inr r \<longrightarrow>
                 toordinal (date_of r) = toordinal (date_of d) + days_ahead
               \<and> weekday (date_of r) = target
               \<and> week_index (date_of r) = week_index (date_of d) + (if later = [] then 1 else 0)
               \<and> r = with_date d (date_of r))
          \<and> (ds = [2, 4] \<and> cw = 3 \<longrightarrow> calculate_next_due_date d f = add_days d 1)"
proof -
  define cw where "cw = weekday (date_of d)"
  define later where "later = filter (\<lambda>x. cw < x) ds"
  define target where "target = (if later = [] then Min (set ds) else Min (set later))"
  define days_ahead where "days_ahead = (if later = [] then (7 - cw) + target else target - cw)"
  have cwr: "0 \<le> cw" "cw \<le> 6" unfolding cw_def by (rule weekday_range)+
  have tin: "target \<in> set ds" "later \<noteq> [] \<Longrightarrow> cw < target"
  proof -
    have "Min (set ds) \<in> set ds" using ds(2) by (intro Min_in) simp_all
    moreover have "later \<noteq> [] \<Longrightarrow> Min (set later) \<in> set later" by (intro Min_in) simp_all
    ultimately show "target \<in> set ds" "later \<noteq> [] \<Longrightarrow> cw < target"
      unfolding target_def by (auto simp: later_def)
  qed
  with rng have tr: "0 \<le> target" "target \<le> 6" by auto
  have c: "calculate_next_due_date d f = add_days d days_ahead"
    unfolding weekly_branch [OF w ds] days_ahead_def target_def later_def cw_def
    by (simp add: Let_def)
  have c': "calculate_next_due_date d (f\<lparr>interval := k\<rparr>) = add_days d days_ahead"
    unfolding days_ahead_def target_def later_def cw_def
    using weekly_branch [of "f\<lparr>interval := k\<rparr>" ds d] w ds by (simp add: Let_def)
  have pos: "0 < days_ahead" "days_ahead \<le> 13"
    unfolding days_ahead_def using cwr tr tin(2) by auto
  have total: "\<exists>r. calculate_next_due_date d f = Inr r"
    if "toordinal (date_of d) + days_ahead \<le> MAXORDINAL"
  proof -
    from v have "0 < toordinal (date_of d)" by (simp add: valid_date_iff)
    with pos that show ?thesis unfolding c by (intro add_days_defined) simp_all
  qed
  have res: "toordinal (date_of r) = toordinal (date_of d) + days_ahead
      \<and> weekday (date_of r) = target
      \<and> week_index (date_of r) = week_index (date_of d) + (if later = [] then 1 else 0)
      \<and> r = with_date d (date_of r)"
    if "calculate_next_due_date d f = Inr r" for r
  proof -
    from that have a: "add_days d days_ahead = Inr r" by (simp add: c)
    note o = add_days_ok [OF v a]
    have "toordinal (date_of r) - 1 = 7 * week_index (date_of d) + cw + days_ahead"
      using o(2) ordinal_week [of "date_of d"] by (simp add: cw_def)
    then have "toordinal (date_of r) - 1 =
        7 * (week_index (date_of d) + (if later = [] then 1 else 0)) + target"
      by (simp add: days_ahead_def)
    from week_from_ordinal [OF this tr] o(2,3) show ?thesis by simp
  qed
  have thu: "calculate_next_due_date d f = add_days d 1" if "ds = [2, 4]" "cw = 3"
  proof -
    from that have "later = [4]" by (simp add: later_def)
    then have "days_ahead = 1" by (simp add: days_ahead_def target_def that)
    with c show ?thesis by simp
  qed
  from c c' pos(1) total res thu show ?thesis
    unfolding Let_def cw_def [symmetric] later_def [symmetric] target_def [symmetric]
      days_ahead_def [symmetric]
    by (intro conjI allI impI) simp_all
qed

lemma thursday_facts:
  "valid_date (date_of thursday)" "weekday (date_of thursday) = 3"
  by (simp_all add: thursday_def date_of_def valid_date_def MINYEAR_def MAXYEAR_def days_in_month_def
      weekday_def toordinal_def days_before_year_def days_before_month_def is_leap_def)

theorem weekly_days_of_week_witness:
  "valid_date (date_of thursday) \<and> ftype wed_fri = ''weekly''
   \<and> days_of_week wed_fri = Some [2, 4] \<and> list_all (\<lambda>x. 0 \<le> x \<and> x \<le> 6) [2, 4 :: int]
   \<and> weekday (date_of thursday) = 3
   \<and> calculate_next_due_date thursday wed_fri = Inr (thursday\<lparr>day := 5\<rparr>)
   \<and> calculate_next_due_date thursday (wed_fri\<lparr>interval := 7\<rparr>) = Inr (thursday\<lparr>day := 5\<rparr>)"
proof -
  have f: "ftype wed_fri = ''weekly''" "days_of_week wed_fri = Some [2, 4]"
    by (simp_all add: wed_fri_def)
  have r: "\<forall>x\<in>set [2, 4 :: int]. 0 \<le> x \<and> x \<le> 6" by simp
  have a: "add_days thursday 1 = Inr (thursday\<lparr>day := 5\<rparr>)"
    by (simp add: add_days_def date_add_days_def date_of_def thursday_def toordinal_def
        days_before_year_def days_before_month_def is_leap_def MAXORDINAL_def date_succ_def
        days_in_month_def with_date_def)
  from weekly_days_of_week [OF thursday_facts(1) f _ r, of 7]
  show ?thesis using thursday_facts f a by (simp add: Let_def)
qed

section \<open>Monthly recurrence\<close>

lemma relativedelta_months:
  assumes "0 \<le> n"
  shows "relativedelta 0 n = (n div 12, n mod 12)"
proof (cases "n > 11")
  case True
  then show ?thesis by (simp add: relativedelta_def Let_def)
next
  case False
  with assms have "n div 12 = 0" "n mod 12 = n" by simp_all
  with False assms show ?thesis by (simp add: relativedelta_def)
qed

lemma add_months:
  assumes m: "1 \<le> month d" "month d \<le> 12" and n: "0 \<le> n"
  shows "add_relativedelta d (relativedelta 0 n) =
     (let ty = months_total d n div 12; tm = months_total d n mod 12 + 1
      in replace_date d (ty, tm, min (days_in_month ty tm) (day d)))"
    and "1 \<le> months_total d n mod 12 + 1" and "months_total d n mod 12 + 1 \<le> 12"
proof -
  define q r where "q = n div 12" and "r = n mod 12"
  have r: "0 \<le> r" "r < 12" unfolding r_def by simp_all
  have nqr: "n = 12 * q + r" unfolding q_def r_def by simp
  define T where "T = months_total d n"
  have T: "T = 12 * (year d + q) + (month d - 1 + r)"
    unfolding T_def months_total_def nqr by (simp add: algebra_simps)
  have rd: "relativedelta 0 n = (q, r)"
    unfolding q_def r_def by (rule relativedelta_months [OF n])
  show "1 \<le> months_total d n mod 12 + 1" "months_total d n mod 12 + 1 \<le> 12"
    using pos_mod_sign [of 12 "months_total d n"] pos_mod_bound [of 12 "months_total d n"]
    by simp_all
  show "add_relativedelta d (relativedelta 0 n) =
     (let ty = months_total d n div 12; tm = months_total d n mod 12 + 1
      in replace_date d (ty, tm, min (days_in_month ty tm) (day d)))"
  proof (cases "month d - 1 + r < 12")
    case True
    have dv: "T div 12 = year d + q"
      by (rule int_div_pos_eq [OF T]) (use True m r in simp_all)
    have md: "T mod 12 = month d - 1 + r"
      by (rule int_mod_pos_eq [OF T]) (use True m r in simp_all)
    from True m r have "add_relativedelta d (q, r) =
        replace_date d (year d + q, month d + r, min (days_in_month (year d + q) (month d + r)) (day d))"
      by (auto simp: add_relativedelta_def Let_def)
    then show ?thesis
      unfolding rd T_def [symmetric] Let_def dv md by simp
  next
    case False
    have T': "T = 12 * (year d + q + 1) + (month d - 1 + r - 12)"
      unfolding T by simp
    have dv: "T div 12 = year d + q + 1"
      by (rule int_div_pos_eq [OF T']) (use False m r in simp_all)
    have md: "T mod 12 = month d - 1 + r - 12"
      by (rule int_mod_pos_eq [OF T']) (use False m r in simp_all)
    from False m r have "add_relativedelta d (q, r) =
        replace_date d (year d + q + 1, month d + r - 12,
          min (days_in_month (year d + q + 1) (month d + r - 12)) (day d))"
      by (auto simp: add_relativedelta_def Let_def)
    then show ?thesis
      unfolding rd T_def [symmetric] Let_def dv md by simp
  qed
qed


lemma days_in_month_range: "28 \<le> days_in_month y m" "days_in_month y m \<le> 31"
  by (simp_all add: days_in_month_def)

lemma with_date_twice: "with_date (with_date d a) b = with_date d b"
  by (cases a; cases b) (simp add: with_date_def)

lemma with_date_fields:
  "year (with_date d (y, m, dd)) = y" "month (with_date d (y, m, dd)) = m"
  "day (with_date d (y, m, dd)) = dd"
  by (simp_all add: with_date_def)

lemma last_day_of_month:
  assumes v: "valid_date (y, m, k0)" and k: "days_in_month y m < k" "k \<le> 31"
  shows "(case add_relativedelta (with_date d (y, m, k0)) (relativedelta 0 1) of
            Inl e \<Rightarrow> Inl e
          | Inr next_month \<Rightarrow>
              (case replace_day next_month 1 of
                 Inl e \<Rightarrow> Inl e
               | Inr first \<Rightarrow>
                   (case add_days first (- 1) of
                      Inl e \<Rightarrow> Inl e
                    | Inr l \<Rightarrow> replace_day (with_date d (y, m, k0)) (day l))))
         = Inr (with_date d (y, m, days_in_month y m))"
proof -
  from v have y: "1 \<le> y" "y \<le> 9999" and m: "1 \<le> m" "m \<le> 12" and k0: "1 \<le> k0" "k0 \<le> days_in_month y m"
    by (simp_all add: valid_date_def MINYEAR_def MAXYEAR_def)
  from k have "days_in_month y m \<noteq> 31" by simp
  with m have m11: "m < 12" by (auto simp: days_in_month_def split: if_splits)
  define nd where "nd = with_date d (y, m, k0)"
  have rd: "relativedelta 0 1 = (0, 1)" by (simp add: relativedelta_def)
  define dd where "dd = min (days_in_month y (m + 1)) k0"
  have ddr: "1 \<le> dd" "dd \<le> days_in_month y (m + 1)"
    using k0 days_in_month_range [of y "m + 1"] by (simp_all add: dd_def)
  have v1: "valid_date (y, m + 1, dd)"
    using y m m11 ddr by (simp add: valid_date_def MINYEAR_def MAXYEAR_def)
  have nm: "add_relativedelta nd (relativedelta 0 1) = Inr (with_date d (y, m + 1, dd))"
    unfolding rd nd_def add_relativedelta_def
    using m m11 v1 by (simp add: with_date_fields Let_def replace_date_def with_date_twice dd_def)
  have vf: "valid_date (y, m + 1, 1)"
    using y m m11 days_in_month_range [of y "m + 1"]
    by (simp add: valid_date_def MINYEAR_def MAXYEAR_def)
  have fst: "replace_day (with_date d (y, m + 1, dd)) 1 = Inr (with_date d (y, m + 1, 1))"
    using vf by (simp add: replace_day_def replace_date_def with_date_fields with_date_twice)
  have vl: "valid_date (y, m, days_in_month y m)"
    using y m days_in_month_range [of y m] by (simp add: valid_date_def MINYEAR_def MAXYEAR_def)
  have pr: "date_pred (y, m + 1, 1) = (y, m, days_in_month y m)"
    using m by (simp add: date_pred_def)
  have o: "toordinal (y, m + 1, 1) - 1 = toordinal (y, m, days_in_month y m)"
    using toordinal_pred [of "(y, m + 1, 1)"] vf by (simp add: pr valid_date_iff)
  have "0 < toordinal (y, m, days_in_month y m)" "toordinal (y, m, days_in_month y m) \<le> MAXORDINAL"
    using vl by (simp_all add: valid_date_iff)
  then have da: "date_add_days (y, m + 1, 1) (- 1) = Inr (y, m, days_in_month y m)"
    unfolding date_add_days_def o [symmetric] by (simp add: pr)
  have l: "add_days (with_date d (y, m + 1, 1)) (- 1) = Inr (with_date d (y, m, days_in_month y m))"
    unfolding add_days_def by (simp add: date_of_def with_date_fields da with_date_twice)
  have fin: "replace_day nd (day (with_date d (y, m, days_in_month y m)))
      = Inr (with_date d (y, m, days_in_month y m))"
    unfolding nd_def using vl
    by (simp add: replace_day_def replace_date_def with_date_fields with_date_twice)
  show ?thesis
    unfolding nd_def [symmetric] by (simp add: nm fst l fin)
qed


text \<open>
  C6: for a monthly frequency the next due date lies \<open>interval\<close> calendar months
  after the current one; its day is \<open>day_of_month\<close> when that day exists in the
  month reached and the last day of that month otherwise (31 in a month of 30 days
  gives 30); without \<open>day_of_month\<close> the current day is kept, clamped likewise.
  The computation fails only beyond year 9999.
\<close>

theorem monthly_next_due:
  assumes v: "valid_date (date_of d)" and fv: "Frequency_valid f" and mo: "ftype f = ''monthly''"
  shows "let T = months_total d (interval f);
             ty = T div 12;
             tm = T mod 12 + 1;
             last = days_in_month ty tm;
             dd = (case day_of_month f of None \<Rightarrow> min (day d) last | Some k \<Rightarrow> min k last)
         in 1 \<le> tm \<and> tm \<le> 12
          \<and> ty * 12 + (tm - 1) = (year d * 12 + (month d - 1)) + interval f
          \<and> calculate_next_due_date d f =
              (if ty \<le> MAXYEAR then Inr (d\<lparr>year := ty, month := tm, day := dd\<rparr>)
               else Inl ValueError)
          \<and> (day_of_month f = Some 31 \<and> last = 30 \<longrightarrow> dd = 30)"
proof -
  define T where "T = months_total d (interval f)"
  define ty where "ty = T div 12"
  define tm where "tm = T mod 12 + 1"
  define last where "last = days_in_month ty tm"
  define dd where "dd = (case day_of_month f of None \<Rightarrow> min (day d) last | Some k \<Rightarrow> min k last)"
  define dd0 where "dd0 = min last (day d)"
  from v have y: "1 \<le> year d" and m: "1 \<le> month d" "month d \<le> 12" and dy: "1 \<le> day d"
    by (simp_all add: valid_date_def date_of_def MINYEAR_def)
  from fv have n: "0 \<le> interval f" by (simp add: Frequency_valid_def)
  note am = add_months [OF m n, folded T_def, unfolded Let_def, folded ty_def tm_def,
      folded last_def, folded dd0_def]
  have tmr: "1 \<le> tm" "tm \<le> 12" using am(2,3) by simp_all
  have lr: "28 \<le> last" "last \<le> 31" unfolding last_def by (rule days_in_month_range)+
  have sum: "ty * 12 + (tm - 1) = T"
    unfolding ty_def tm_def by (simp add: algebra_simps)
  have "12 \<le> T" unfolding T_def months_total_def using y m n by simp
  then have ty1: "1 \<le> ty" using sum tmr by simp
  have dec: "T = (year d * 12 + (month d - 1)) + interval f"
    by (simp add: T_def months_total_def)
  have dd0r: "1 \<le> dd0" "dd0 \<le> last" using dy lr by (simp_all add: dd0_def)
  have vd: "valid_date (ty, tm, k) \<longleftrightarrow> ty \<le> MAXYEAR \<and> 1 \<le> k \<and> k \<le> last" for k
    using ty1 tmr by (auto simp: valid_date_def MINYEAR_def last_def)
  have wd: "with_date d (ty, tm, k) = d\<lparr>year := ty, month := tm, day := k\<rparr>" for k
    by (simp add: with_date_def)
  have c: "calculate_next_due_date d f =
      (if ty \<le> MAXYEAR then Inr (d\<lparr>year := ty, month := tm, day := dd\<rparr>) else Inl ValueError)"
  proof (cases "ty \<le> MAXYEAR")
    case False
    then have "add_relativedelta d (relativedelta 0 (interval f)) = Inl ValueError"
      unfolding am(1) by (simp add: replace_date_def vd)
    with False mo show ?thesis by (simp add: calculate_next_due_date_def)
  next
    case True
    define nd where "nd = with_date d (ty, tm, dd0)"
    have v0: "valid_date (ty, tm, dd0)" using True dd0r by (simp add: vd)
    then have nx: "add_relativedelta d (relativedelta 0 (interval f)) = Inr nd"
      unfolding am(1) nd_def by (simp add: replace_date_def)
    have ndf: "year nd = ty" "month nd = tm" by (simp_all add: nd_def with_date_fields)
    show ?thesis
    proof (cases "day_of_month f")
      case None
      then have "dd = dd0" by (simp add: dd_def dd0_def min.commute)
      with None mo nx True show ?thesis
        by (simp add: calculate_next_due_date_def nd_def wd)
    next
      case (Some k)
      with fv have k: "1 \<le> k" "k \<le> 31" by (simp_all add: Frequency_valid_def)
      show ?thesis
      proof (cases "k \<le> last")
        case le: True
        then have "dd = k" by (simp add: dd_def Some)
        moreover have "replace_day nd k = Inr (with_date nd (ty, tm, k))"
          using le k True by (simp add: replace_day_def replace_date_def ndf vd)
        then have "replace_day nd k = Inr (with_date d (ty, tm, k))"
          by (simp add: nd_def with_date_twice)
        ultimately show ?thesis
          using Some mo nx True k by (simp add: calculate_next_due_date_def wd)
      next
        case gt: False
        then have "dd = last" by (simp add: dd_def Some)
        moreover have "replace_day nd k = Inl ValueError"
          using gt by (simp add: replace_day_def replace_date_def ndf vd)
        moreover note last_day_of_month [OF v0 _ k(2), where d = d, folded nd_def last_def]
        ultimately show ?thesis
          using Some mo nx True k gt by (simp add: calculate_next_due_date_def wd)
      qed
    qed
  qed
  have ex: "dd = 30" if "day_of_month f = Some 31" "last = 30"
    using that by (simp add: dd_def)
  from tmr sum dec c ex show ?thesis
    unfolding Let_def T_def [symmetric] ty_def [symmetric] tm_def [symmetric] last_def [symmetric]
      dd_def [symmetric]
    by simp
qed

theorem monthly_next_due_witness:
  "valid_date (date_of march_15) \<and> Frequency_valid monthly_31 \<and> ftype monthly_31 = ''monthly''
   \<and> calculate_next_due_date march_15 monthly_31 = Inr (march_15\<lparr>month := 4, day := 30\<rparr>)"
proof -
  have v: "valid_date (date_of march_15)"
    by (simp add: march_15_def date_of_def valid_date_def MINYEAR_def MAXYEAR_def days_in_month_def)
  have f: "Frequency_valid monthly_31" "ftype monthly_31 = ''monthly''"
    by (simp_all add: monthly_31_def Frequency_valid_def)
  from monthly_next_due [OF v f] show ?thesis
    using v f
    by (simp add: Let_def months_total_def march_15_def monthly_31_def days_in_month_def MAXYEAR_def)
qed

section \<open>Description validation\<close>




lemma validate_description_cases:
  "validate_description raw =
     (case raw of None \<Rightarrow> Inl ValidationError
      | Some v \<Rightarrow> if length v < 1 \<or> 500 < length v then Inl ValidationError
                  else Inr (sanitized v))"
  by (auto simp: validate_description_def constr_length_def bind_def sanitize_description_def
      split: option.splits)






section \<open>The read cache\<close>

lemma sanitized_plants: "sanitized ''water the plants'' = ''water the plants''"
  by code_simp

lemma Task_init_valid_kwargs: "Task_init valid_kwargs thursday g = (Inr plants, g)"
  by (simp add: Task_init_def valid_kwargs_def blank_kwargs_def validate_description_cases
      sanitized_plants bind_def validate_category_def required_datetime_def
      optional_datetime_def validate_frequency_def default_datetime_def plants_def)

lemma load_empty_1: "load_tasks 0 thursday empty_world =
    (0, empty_world\<lparr>heap := (heap empty_world)(0 := []), next_ref := 1, file_reads := 1,
        cache_data := Some 0, cache_expires_at := 10\<rparr>)"
  by (simp add: load_tasks_def read_tasks_def empty_world_def new_list_def CACHE_EXPIRATION_def)

lemma parse_one: "parse_items [Object valid_kwargs] thursday g = (Some [plants], g)"
  by (simp add: Task_init_valid_kwargs)

lemma load_one_1: "load_tasks 0 thursday one_task_world =
    (0, one_task_world\<lparr>heap := (heap one_task_world)(0 := [plants]), next_ref := 1, file_reads := 1,
        cache_data := Some 0, cache_expires_at := 10\<rparr>)"
  by (simp add: load_tasks_def read_tasks_def one_task_world_def empty_world_def new_list_def
      CACHE_EXPIRATION_def Task_init_valid_kwargs)

text \<open>
  C3, as stated, fails.  With an empty collection the second of two loads one second
  apart reads the backing document again; and a load 12 seconds after the one that
  filled the cache reads it again although the load before it, served from the cache,
  was only 3 seconds earlier.
\<close>

theorem cache_misses:
  "(let (a1, w1) = load_tasks 0 thursday empty_world;
        (a2, w2) = load_tasks 1 thursday w1
    in heap w1 a1 = [] \<and> heap w2 a2 = [] \<and> file_reads w1 = 1 \<and> file_reads w2 = 2)
   \<and> (let (a1, w1) = load_tasks 0 thursday one_task_world;
            (a2, w2) = load_tasks 9 thursday w1;
            (a3, w3) = load_tasks 12 thursday w2
        in file_reads w1 = 1 \<and> file_reads w2 = 1 \<and> file_reads w3 = 2)"
proof -
  define e1 where "e1 = empty_world\<lparr>heap := (heap empty_world)(0 := []), next_ref := 1,
      file_reads := 1, cache_data := Some 0, cache_expires_at := 10\<rparr>"
  have "fst (load_tasks 1 thursday e1) = 1" "file_reads (snd (load_tasks 1 thursday e1)) = 2"
    "heap (snd (load_tasks 1 thursday e1)) 1 = []"
    by (simp_all add: e1_def load_tasks_def read_tasks_def empty_world_def new_list_def)
  then obtain e2 where e2: "load_tasks 1 thursday e1 = (1, e2)" "file_reads e2 = 2" "heap e2 1 = []"
    by (cases "load_tasks 1 thursday e1") auto
  have e1f: "heap e1 0 = []" "file_reads e1 = 1"
    by (simp_all add: e1_def empty_world_def)
  define w1 where "w1 = one_task_world\<lparr>heap := (heap one_task_world)(0 := [plants]), next_ref := 1,
      file_reads := 1, cache_data := Some 0, cache_expires_at := 10\<rparr>"
  have b: "load_tasks 9 thursday w1 = (0, w1)"
    by (simp add: load_tasks_def w1_def)
  have "fst (load_tasks 12 thursday w1) = 1" "file_reads (snd (load_tasks 12 thursday w1)) = 2"
    by (simp_all add: load_tasks_def w1_def read_tasks_def one_task_world_def empty_world_def
        new_list_def Task_init_valid_kwargs)
  then obtain w3 where w3: "load_tasks 12 thursday w1 = (1, w3)" "file_reads w3 = 2"
    by (cases "load_tasks 12 thursday w1") auto
  have w1f: "file_reads w1 = 1" by (simp add: w1_def)
  show ?thesis
    unfolding load_empty_1 load_one_1 e1_def [symmetric] w1_def [symmetric]
    using e2 e1f b w3 w1f by simp
qed

lemma read_tasks_nonempty:
  assumes "read_tasks t1 now w = (a, w1)" "heap w1 a \<noteq> []"
  shows "cache_data w1 = Some a" "cache_expires_at w1 = t1 + 10" "a < next_ref w1"
  using assms
  by (auto simp: read_tasks_def new_list_def CACHE_EXPIRATION_def
      split: document.splits prod.splits option.splits)

lemma fresh_load:
  assumes "load_tasks t1 now w = (a, w1)" "file_reads w1 \<noteq> file_reads w" "heap w1 a \<noteq> []"
  shows "cache_data w1 = Some a" "cache_expires_at w1 = t1 + 10" "a < next_ref w1"
proof -
  from assms(1,2) have "read_tasks t1 now w = (a, w1)"
    by (auto simp: load_tasks_def split: option.splits if_splits)
  from read_tasks_nonempty [OF this assms(3)]
  show "cache_data w1 = Some a" "cache_expires_at w1 = t1 + 10" "a < next_ref w1" .
qed

lemma cached_load:
  assumes "cache_data w = Some a" "heap w a \<noteq> []" "t < cache_expires_at w"
  shows "load_tasks t now w = (a, w)"
  using assms by (simp add: load_tasks_def)

text \<open>
  C3, amended: when a load reads the backing document at time \<open>t1\<close> and yields a
  non-empty collection, the cache entry expires at \<open>t1 + 10\<close>, and a load at any time
  before that, with no save in between, returns the same collection and leaves the whole
  state, the read counter included, as it was.
\<close>

theorem load_served_from_cache:
  assumes "load_tasks t1 now w = (a, w1)"
    and "file_reads w1 \<noteq> file_reads w"
    and "heap w1 a \<noteq> []"
    and "t2 < t1 + 10"
  shows "load_tasks t2 now' w1 = (a, w1) \<and> cache_expires_at w1 = t1 + 10"
proof -
  note f = fresh_load [OF assms(1-3)]
  from assms(4) have "t2 < cache_expires_at w1" by (simp add: f(2))
  from cached_load [OF f(1) assms(3) this] f(2) show ?thesis by simp
qed

theorem load_served_from_cache_witness:
  "file_reads (snd (load_tasks 0 thursday one_task_world)) \<noteq> file_reads one_task_world
   \<and> heap (snd (load_tasks 0 thursday one_task_world)) 0 = [plants]
   \<and> load_tasks 9 thursday (snd (load_tasks 0 thursday one_task_world))
       = load_tasks 0 thursday one_task_world"
proof -
  define w1 where "w1 = snd (load_tasks 0 thursday one_task_world)"
  have l: "load_tasks 0 thursday one_task_world = (0, w1)"
    by (simp add: w1_def load_one_1)
  have "file_reads w1 = 1" by (simp add: w1_def load_one_1)
  moreover have "file_reads one_task_world = 0"
    by (simp add: one_task_world_def empty_world_def)
  ultimately have r: "file_reads w1 \<noteq> file_reads one_task_world" by simp
  have h: "heap w1 0 = [plants]" by (simp add: w1_def load_one_1)
  then have h': "heap w1 0 \<noteq> []" by simp
  from load_served_from_cache [OF l r h', of 9 thursday] r h l show ?thesis
    unfolding w1_def [symmetric] by simp
qed





section \<open>Filtering\<close>

lemma tomorrow_defined:
  assumes "valid_date d" "toordinal d < MAXORDINAL"
  shows "date_add_days d 1 = Inr (date_succ d)"
proof -
  from assms(1) have "0 < toordinal d" by (simp add: valid_date_iff)
  with assms(2) show ?thesis by (simp add: date_add_days_def)
qed

lemma filter_if: "(if b then filter P xs else xs) = filter (\<lambda>x. b \<longrightarrow> P x) xs"
  by simp

lemma filter_tasks_stages:
  assumes "valid_date (date_of now)" "toordinal (date_of now) < MAXORDINAL"
    and "0 \<le> offset" and "case limit of None \<Rightarrow> True | Some l \<Rightarrow> 1 \<le> l"
  shows "filter_tasks now tasks d s c limit offset =
     Inr (spec_page limit offset
            (filter (spec_category c)
               (filter (spec_status now s)
                  (filter (spec_due_date (date_of now) (date_succ (date_of now)) d) tasks))))"
proof -
  let ?today = "date_of now"
  let ?f1 = "filter (spec_due_date ?today (date_succ ?today) d) tasks"
  let ?f2 = "filter (spec_status now s) ?f1"
  let ?f3 = "filter (spec_category c) ?f2"
  have 1: "(if d = Some ''today'' then filter (\<lambda>t. date_of (due_date t) = ?today) tasks
            else if d = Some ''tomorrow'' then filter (\<lambda>t. date_of (due_date t) = date_succ ?today) tasks
            else tasks) = ?f1"
    by (simp add: spec_due_date_def [abs_def])
  have 2: "(if s = Some ''due''
            then filter (\<lambda>t. \<not> completed t \<and> date_le (date_of (due_date t)) ?today) xs
            else if s = Some ''overdue''
            then filter (\<lambda>t. \<not> completed t \<and> instant (due_date t) < instant now) xs
            else if s = Some ''completed'' then filter (\<lambda>t. completed t) xs
            else xs) = filter (spec_status now s) xs" for xs
    by (simp add: spec_status_def [abs_def])
  have 3: "(case c of None \<Rightarrow> xs
            | Some c' \<Rightarrow> if c' \<noteq> [] then filter (\<lambda>t. lower (category t) = lower c') xs else xs)
           = filter (spec_category c) xs" for xs
    by (cases c) (simp_all add: spec_category_def [abs_def])
  have 4: "(if offset \<noteq> 0 then slice_from xs offset else xs) = drop (nat offset) xs" for xs :: "Task list"
    using assms(3) by (simp add: slice_from_def)
  have 5: "(case limit of None \<Rightarrow> drop (nat offset) xs
            | Some l \<Rightarrow> if l \<noteq> 0 then slice_to (drop (nat offset) xs) l else drop (nat offset) xs)
           = spec_page limit offset xs" for xs :: "Task list"
    using assms(4) by (cases limit) (auto simp: spec_page_def slice_to_def)
  show ?thesis
    unfolding filter_tasks_def Let_def tomorrow_defined [OF assms(1,2)] sum.case 1 2 3 4 5 ..
qed

text \<open>
  C8: for every collection and every combination of options (offset at least 0, limit
  at least 1 when given), \<open>filter_tasks\<close> is the due-date filter, then the status
  filter, then the category filter, then offset, then limit, all against the one
  \<open>now\<close> of the call; the result is drawn from the collection; absent options change
  nothing; status due, overdue and completed keep exactly the incomplete tasks due on or
  before today's date, the incomplete tasks whose due instant is before now, and the
  completed tasks.
\<close>

theorem filter_tasks_semantics:
  assumes "valid_date (date_of now)" "toordinal (date_of now) < MAXORDINAL"
    and "0 \<le> offset" and "case limit of None \<Rightarrow> True | Some l \<Rightarrow> 1 \<le> l"
  shows "filter_tasks now tasks d s c limit offset =
           Inr (spec_page limit offset
                  (filter (spec_category c)
                     (filter (spec_status now s)
                        (filter (spec_due_date (date_of now) (date_succ (date_of now)) d) tasks))))
    \<and> (\<exists>r. filter_tasks now tasks d s c limit offset = Inr r \<and> set r \<subseteq> set tasks
            \<and> length r \<le> length tasks)
    \<and> filter_tasks now tasks None None None None 0 = Inr tasks
    \<and> filter_tasks now tasks None (Some ''due'') None None 0 =
          Inr (filter (\<lambda>t. \<not> completed t \<and> date_le (date_of (due_date t)) (date_of now)) tasks)
    \<and> filter_tasks now tasks None (Some ''overdue'') None None 0 =
          Inr (filter (\<lambda>t. \<not> completed t \<and> instant (due_date t) < instant now) tasks)
    \<and> filter_tasks now tasks None (Some ''completed'') None None 0 =
          Inr (filter (\<lambda>t. completed t) tasks)"
proof -
  note st = filter_tasks_stages [OF assms(1,2)]
  have g: "filter_tasks now tasks d s c limit offset =
           Inr (spec_page limit offset
                  (filter (spec_category c)
                     (filter (spec_status now s)
                        (filter (spec_due_date (date_of now) (date_succ (date_of now)) d) tasks))))"
    by (rule st [OF assms(3,4)])
  have sub: "set (spec_page limit offset xs) \<subseteq> set xs"
    "length (spec_page limit offset xs) \<le> length xs" for xs :: "Task list"
    by (auto simp: spec_page_def split: option.splits dest: in_set_takeD in_set_dropD)
  have n: "\<exists>r. filter_tasks now tasks d s c limit offset = Inr r \<and> set r \<subseteq> set tasks
      \<and> length r \<le> length tasks"
  proof -
    let ?f = "filter (spec_category c) (filter (spec_status now s)
        (filter (spec_due_date (date_of now) (date_succ (date_of now)) d) tasks))"
    have "set ?f \<subseteq> set tasks" by auto
    with sub(1) [of ?f] have 1: "set (spec_page limit offset ?f) \<subseteq> set tasks" by blast
    have "length ?f \<le> length tasks"
      by (intro le_trans [OF length_filter_le] order.refl)
    with sub(2) [of ?f] have 2: "length (spec_page limit offset ?f) \<le> length tasks"
      by (rule le_trans)
    from g 1 2 show ?thesis by blast
  qed
  have z: "filter_tasks now tasks None opt None None 0 =
      Inr (filter (spec_status now opt) tasks)" for opt
    using st [of 0 None tasks None opt None]
    by (simp add: spec_page_def spec_category_def [abs_def] spec_due_date_def [abs_def])
  have a: "filter_tasks now tasks None None None None 0 = Inr tasks"
    unfolding z by (simp add: spec_status_def [abs_def])
  have d: "filter_tasks now tasks None (Some ''due'') None None 0 =
      Inr (filter (\<lambda>t. \<not> completed t \<and> date_le (date_of (due_date t)) (date_of now)) tasks)"
    unfolding z by (simp add: spec_status_def [abs_def])
  have ov: "filter_tasks now tasks None (Some ''overdue'') None None 0 =
      Inr (filter (\<lambda>t. \<not> completed t \<and> instant (due_date t) < instant now) tasks)"
    unfolding z by (simp add: spec_status_def [abs_def])
  have co: "filter_tasks now tasks None (Some ''completed'') None None 0 =
      Inr (filter (\<lambda>t. completed t) tasks)"
    unfolding z by (simp add: spec_status_def [abs_def])
  from g n a d ov co show ?thesis by blast
qed

lemma thursday_ordinal: "toordinal (date_of thursday) = 738889"
  by (simp add: thursday_def date_of_def toordinal_def days_before_year_def
      days_before_month_def is_leap_def)

theorem filter_tasks_semantics_witness:
  "valid_date (date_of thursday) \<and> toordinal (date_of thursday) < MAXORDINAL
   \<and> filter_tasks thursday [due_today, due_yesterday, done_today] None (Some ''overdue'') None None 0
       = Inr [due_yesterday]
   \<and> filter_tasks thursday [due_today, due_yesterday, done_today] None (Some ''completed'') None None 0
       = Inr [done_today]
   \<and> filter_tasks thursday [due_today, due_yesterday, done_today] None (Some ''due'') None None 0
       = Inr [due_today, due_yesterday]
   \<and> filter_tasks thursday [due_today, due_yesterday, done_today] (Some ''today'') None None None 0
       = Inr [due_today, done_today]
   \<and> filter_tasks thursday [due_today, due_yesterday, done_today] (Some ''today'') None
         (Some ''General'') (Some 1) 1
       = Inr [done_today]"
proof -
  have v: "valid_date (date_of thursday)" by (rule thursday_facts(1))
  have m: "toordinal (date_of thursday) < MAXORDINAL"
    by (simp add: thursday_ordinal MAXORDINAL_def)
  have i: "instant (due_date due_today) = instant thursday + 32400000000"
     "instant (due_date due_yesterday) = instant thursday - 86400000000"
    by (simp_all add: instant_def due_today_def due_yesterday_def plants_def thursday_def date_of_def
        toordinal_def days_before_year_def days_before_month_def is_leap_def)
  have c: "completed done_today" "\<not> completed due_today" "\<not> completed due_yesterday"
    by (simp_all add: done_today_def due_today_def due_yesterday_def plants_def)
  have dl: "date_le (date_of (due_date due_today)) (date_of thursday)"
    "date_le (date_of (due_date due_yesterday)) (date_of thursday)"
    by (simp_all add: date_le_def date_of_def due_today_def due_yesterday_def thursday_def)
  have dd: "date_of (due_date due_today) = date_of thursday"
    "date_of (due_date due_yesterday) \<noteq> date_of thursday"
    "date_of (due_date done_today) = date_of thursday"
    by (simp_all add: date_of_def due_today_def due_yesterday_def done_today_def thursday_def)
  have lo: "lower (category due_today) = lower ''General''"
    "lower (category done_today) = lower ''General''"
    by code_simp+
  note t = filter_tasks_semantics [OF v m, where tasks = "[due_today, due_yesterday, done_today]"]
  from t [of 0 None None None None] have
    "filter_tasks thursday [due_today, due_yesterday, done_today] None (Some ''overdue'') None None 0
       = Inr [due_yesterday]"
    by (simp add: i c)
  moreover from t [of 0 None None None None] have
    "filter_tasks thursday [due_today, due_yesterday, done_today] None (Some ''completed'') None None 0
       = Inr [done_today]"
    by (simp add: c)
  moreover from t [of 0 None None None None] have
    "filter_tasks thursday [due_today, due_yesterday, done_today] None (Some ''due'') None None 0
       = Inr [due_today, due_yesterday]"
    by (simp add: c dl)
  moreover from t [of 0 None "Some ''today''" None None] have
    "filter_tasks thursday [due_today, due_yesterday, done_today] (Some ''today'') None None None 0
       = Inr [due_today, done_today]"
    by (simp add: spec_page_def spec_category_def spec_status_def spec_due_date_def dd)
  moreover from t [of 1 "Some 1" "Some ''today''" None "Some ''General''"] have
    "filter_tasks thursday [due_today, due_yesterday, done_today] (Some ''today'') None
         (Some ''General'') (Some 1) 1 = Inr [done_today]"
    by (simp add: spec_page_def spec_category_def spec_status_def spec_due_date_def dd lo)
  ultimately show ?thesis using v m by simp
qed

section \<open>Next due date after create and update\<close>

lemma daily_valid: "Frequency_valid daily"
  by (simp add: daily_def Frequency_valid_def)

lemma daily_next:
  "calculate_next_due_date thursday daily = Inr (thursday\<lparr>day := 5\<rparr>)"
  "calculate_next_due_date march_15 daily = Inr (march_15\<lparr>day := 16\<rparr>)"
  by (simp_all add: calculate_next_due_date_def daily_def add_days_def date_add_days_def date_of_def
      thursday_def march_15_def toordinal_def days_before_year_def days_before_month_def
      is_leap_def MAXORDINAL_def date_succ_def days_in_month_def with_date_def)

lemma sanitize_category_general: "sanitize_category ''general'' = ''general''"
  by code_simp

lemma Task_init_daily: "Task_init (Task_dict daily_task) now g = (Inr daily_task, g)"
  by (simp add: Task_init_def Task_dict_def daily_task_def plants_def validate_description_cases
      sanitized_plants bind_def validate_category_def constr_length_def required_datetime_def
      optional_datetime_def validate_frequency_def daily_valid default_datetime_def
      sanitize_category_general)

lemma load_daily: "load_tasks 0 thursday daily_world =
    (0, daily_world\<lparr>heap := (heap daily_world)(0 := [daily_task]), next_ref := 1, file_reads := 1,
        cache_data := Some 0, cache_expires_at := 10\<rparr>)"
  by (simp add: load_tasks_def read_tasks_def daily_world_def empty_world_def new_list_def
      CACHE_EXPIRATION_def Task_init_daily)

text \<open>
  C1 at a due-date-only update: a daily task due on 2024-01-04 with next due date
  2024-01-05 is moved to 2024-03-15 by \<open>update_task\<close>; the call succeeds, the
  frequency stays, and the next due date stays 2024-01-05 although the recurrence of the
  new due date is 2024-03-16.
\<close>

theorem stale_next_due_date_after_update:
  "fst (update_task ''t1'' new_due_date 0 thursday daily_world)
     = Inr (daily_task\<lparr>due_date := march_15\<rparr>)
   \<and> frequency (daily_task\<lparr>due_date := march_15\<rparr>) = Some daily
   \<and> next_due_date (daily_task\<lparr>due_date := march_15\<rparr>) = Some (thursday\<lparr>day := 5\<rparr>)
   \<and> calculate_next_due_date march_15 daily = Inr (march_15\<lparr>day := 16\<rparr>)
   \<and> thursday\<lparr>day := 5\<rparr> \<noteq> march_15\<lparr>day := 16\<rparr>
   \<and> \<not> consistent (daily_task\<lparr>due_date := march_15\<rparr>)"
proof -
  have i: "task_id daily_task = ''t1''"
    by (simp add: daily_task_def plants_def)
  have u: "updated_at daily_task = thursday" by (simp add: daily_task_def plants_def)
  have "fst (update_task ''t1'' new_due_date 0 thursday daily_world)
     = Inr (daily_task\<lparr>due_date := march_15\<rparr>)"
    unfolding update_task_def load_daily
    by (simp add: i new_due_date_def save_and_return_def save_tasks_def daily_world_def
        empty_world_def Let_def u [symmetric])
  moreover have "thursday\<lparr>day := 5\<rparr> \<noteq> march_15\<lparr>day := 16\<rparr>"
    by (simp add: thursday_def march_15_def)
  ultimately show ?thesis
    by (simp add: daily_next daily_task_def consistent_def)
qed

lemma set_next_due_date_consistent:
  assumes "set_next_due_date t f = Inr t'" "frequency t = Some f"
  shows "consistent t'" "frequency t' = Some f" "due_date t' = due_date t"
  using assms by (auto simp: set_next_due_date_def bind_def consistent_def split: sum.splits)

lemma save_and_return_task: "fst (save_and_return a t w) = Inr t' \<Longrightarrow> t' = t"
  by (auto simp: save_and_return_def split: prod.splits if_splits)

lemma Task_init_frequency:
  "fst (Task_init kw now g) = Inr t \<Longrightarrow> frequency t = kw_frequency kw"
  by (auto simp: Task_init_def bind_def Let_def validate_frequency_def
      split: prod.splits sum.splits option.splits if_splits)

text \<open>
  A task returned by \<open>create_task\<close> carries the recurrence of its due date.
\<close>

lemma create_task_consistent:
  assumes "fst (create_task task_data current_time now w) = Inr t"
  shows "consistent t" "frequency t = tc_frequency task_data"
proof -
  obtain a w1 where l: "load_tasks current_time now w = (a, w1)" by (cases "load_tasks current_time now w")
  define kw where "kw = \<lparr>kw_id = None, kw_description = Some (tc_description task_data),
      kw_category = Some (tc_category task_data), kw_due_date = Some (Parsed (tc_due_date task_data)),
      kw_completed = None, kw_completed_at = None, kw_frequency = tc_frequency task_data,
      kw_next_due_date = None,
      kw_reminders = Some (map Reminder_kwargs (tc_reminders task_data)),
      kw_created_at = None, kw_updated_at = None\<rparr>"
  obtain r g where i: "Task_init kw now (uuids w1) = (r, g)" by (cases "Task_init kw now (uuids w1)")
  from assms obtain nt where r: "r = Inr nt"
    by (cases r) (auto simp: create_task_def l i Let_def kw_def [symmetric])
  from i r have fr: "frequency nt = tc_frequency task_data"
    using Task_init_frequency [of kw now "uuids w1" nt] by (simp add: kw_def)
  show "consistent t" "frequency t = tc_frequency task_data"
  proof -
    show "consistent t"
    proof (cases "frequency nt")
      case None
      with assms have "t = nt"
        by (auto simp: create_task_def l i r Let_def kw_def [symmetric] dest: save_and_return_task)
      with None show ?thesis by (simp add: consistent_def)
    next
      case (Some f)
      with assms obtain nt' where s: "set_next_due_date nt f = Inr nt'" and t: "t = nt'"
        by (auto simp: create_task_def l i r Let_def kw_def [symmetric] split: sum.splits
            dest: save_and_return_task)
      from set_next_due_date_consistent(1) [OF s Some] t show ?thesis by simp
    qed
    show "frequency t = tc_frequency task_data"
    proof (cases "frequency nt")
      case None
      with assms have "t = nt"
        by (auto simp: create_task_def l i r Let_def kw_def [symmetric] dest: save_and_return_task)
      with fr show ?thesis by simp
    next
      case (Some f)
      with assms obtain nt' where s: "set_next_due_date nt f = Inr nt'" and t: "t = nt'"
        by (auto simp: create_task_def l i r Let_def kw_def [symmetric] split: sum.splits
            dest: save_and_return_task)
      from set_next_due_date_consistent(2) [OF s Some] t fr Some show ?thesis by simp
    qed
  qed
qed

text \<open>
  So does a task returned by \<open>update_task\<close> when the update gives a frequency.
\<close>

lemma update_task_frequency_consistent:
  assumes "fst (update_task tid task_update current_time now w) = Inr t"
    and "tu_frequency task_update = Some f"
  shows "consistent t" "frequency t = Some f"
proof -
  obtain a w1 where l: "load_tasks current_time now w = (a, w1)" by (cases "load_tasks current_time now w")
  from assms(1) obtain i where f: "find_index (\<lambda>t. task_id t = tid) (heap w1 a) = Some i"
    by (cases "find_index (\<lambda>t. task_id t = tid) (heap w1 a)") (auto simp: update_task_def l)
  define t3 where "t3 = (case tu_due_date task_update of
      None \<Rightarrow> (case tu_category task_update of
                 None \<Rightarrow> (case tu_description task_update of
                            None \<Rightarrow> heap w1 a ! i | Some v \<Rightarrow> (heap w1 a ! i)\<lparr>description := v\<rparr>)
               | Some v \<Rightarrow> (case tu_description task_update of
                            None \<Rightarrow> heap w1 a ! i | Some v \<Rightarrow> (heap w1 a ! i)\<lparr>description := v\<rparr>)\<lparr>category := v\<rparr>)
    | Some v \<Rightarrow> (case tu_category task_update of
                 None \<Rightarrow> (case tu_description task_update of
                            None \<Rightarrow> heap w1 a ! i | Some v \<Rightarrow> (heap w1 a ! i)\<lparr>description := v\<rparr>)
               | Some v \<Rightarrow> (case tu_description task_update of
                            None \<Rightarrow> heap w1 a ! i | Some v \<Rightarrow> (heap w1 a ! i)\<lparr>description := v\<rparr>)\<lparr>category := v\<rparr>)\<lparr>due_date := v\<rparr>)"
  from assms obtain t4 where s: "set_next_due_date (t3\<lparr>frequency := Some f\<rparr>) f = Inr t4"
    and t: "t = (case tu_reminders task_update of None \<Rightarrow> t4 | Some v \<Rightarrow> t4\<lparr>reminders := v\<rparr>)\<lparr>updated_at := now\<rparr>"
    by (auto simp: update_task_def l f Let_def t3_def [symmetric] split: sum.splits
        dest!: save_and_return_task)
  have "frequency (t3\<lparr>frequency := Some f\<rparr>) = Some f" by simp
  note c = set_next_due_date_consistent [OF s this]
  from c t show "consistent t" "frequency t = Some f"
    by (auto simp: consistent_def split: option.splits)
qed

end
